theory Spec2Isabelle
  imports Complex_Main "HOL-Library.Log_Nat" "HOL-Library.Sublist"
begin

section \<open>Python values used by the documentation generator\<close>

text \<open>
  The repository is Python. Strings are modelled as \<^typ>\<open>string\<close> over the ASCII
  range: the character classes below are those of Python's \<^verbatim>\<open>str\<close> methods and of the
  \<^verbatim>\<open>re\<close> module on code points below 128 (a character above that range is treated as
  neither a letter, a digit nor white space). Python's \<^verbatim>\<open>float\<close> is an IEEE-754 binary64
  number; it is modelled as the rational it denotes, and every arithmetic operation rounds
  its exact result to the nearest number with a 53-bit significand, ties to even
  (\<open>fl\<close>). A decimal literal of the source such as \<^verbatim>\<open>0.35\<close> is \<open>fl (35 / 100)\<close>; an integer
  operand such as \<^verbatim>\<open>100\<close> is converted exactly. The exponent range is not bounded in the
  model: the quotients and products of the evaluator stay far inside the binary64 range for
  any text that fits in memory, so overflow, underflow and the special values do not arise.
\<close>

subsection \<open>Characters and strings\<close>

definition py_isupper :: "char \<Rightarrow> bool" where
  "py_isupper c = (65 \<le> (of_char c :: nat) \<and> (of_char c :: nat) \<le> 90)"

definition py_islower :: "char \<Rightarrow> bool" where
  "py_islower c = (97 \<le> (of_char c :: nat) \<and> (of_char c :: nat) \<le> 122)"

definition py_isdigit :: "char \<Rightarrow> bool" where
  "py_isdigit c = (48 \<le> (of_char c :: nat) \<and> (of_char c :: nat) \<le> 57)"

text \<open>The class \<^verbatim>\<open>\w\<close> of the regular expressions.\<close>

definition is_word_char :: "char \<Rightarrow> bool" where
  "is_word_char c = (py_isupper c \<or> py_islower c \<or> py_isdigit c \<or> c = CHR ''_'')"

text \<open>The class \<^verbatim>\<open>\s\<close>, which is also what \<^verbatim>\<open>str.split()\<close> and \<^verbatim>\<open>str.strip()\<close> remove.\<close>

definition py_isspace :: "char \<Rightarrow> bool" where
  "py_isspace c = ((of_char c :: nat) \<in> {9, 10, 11, 12, 13, 28, 29, 30, 31, 32})"

definition char_lower :: "char \<Rightarrow> char" where
  "char_lower c = (if py_isupper c then char_of ((of_char c :: nat) + 32) else c)"

definition char_upper :: "char \<Rightarrow> char" where
  "char_upper c = (if py_islower c then char_of ((of_char c :: nat) - 32) else c)"

text \<open>\<^verbatim>\<open>s.lower()\<close> and \<^verbatim>\<open>s.capitalize()\<close> on ASCII text. Beyond ASCII \<^verbatim>\<open>str.lower()\<close> is not a
  character-by-character map (a capital sigma is lowered according to what follows it), so
  nothing below is stated about the lower case of a concatenation.\<close>

definition lower :: "string \<Rightarrow> string" where
  "lower s = map char_lower s"

definition capitalize :: "string \<Rightarrow> string" where
  "capitalize s = (case s of [] \<Rightarrow> [] | c # cs \<Rightarrow> char_upper c # lower cs)"

text \<open>\<^verbatim>\<open>s.startswith(p)\<close> and the substring test \<^verbatim>\<open>p in s\<close>.\<close>

fun startswith :: "string \<Rightarrow> string \<Rightarrow> bool" where
  "startswith s [] = True"
| "startswith [] (p # ps) = False"
| "startswith (c # cs) (p # ps) = (c = p \<and> startswith cs ps)"

fun py_in :: "string \<Rightarrow> string \<Rightarrow> bool" where
  "py_in p [] = (p = [])"
| "py_in p (c # cs) = (startswith (c # cs) p \<or> py_in p cs)"

text \<open>\<^verbatim>\<open>s.split(sep)\<close> for a one-character separator: every occurrence splits, empty
  pieces are kept, and the result is never empty.\<close>

fun split_on :: "char \<Rightarrow> string \<Rightarrow> string list" where
  "split_on sep [] = [[]]"
| "split_on sep (c # cs) =
     (if c = sep then [] # split_on sep cs
      else (case split_on sep cs of [] \<Rightarrow> [[c]] | w # ws \<Rightarrow> (c # w) # ws))"

text \<open>\<^verbatim>\<open>s.split()\<close>: the maximal runs of characters that are not white space.\<close>

fun split_ws :: "string \<Rightarrow> string \<Rightarrow> string list" where
  "split_ws cur [] = (if cur = [] then [] else [cur])"
| "split_ws cur (c # cs) =
     (if py_isspace c then (if cur = [] then split_ws [] cs else cur # split_ws [] cs)
      else split_ws (cur @ [c]) cs)"

definition py_split :: "string \<Rightarrow> string list" where
  "py_split s = split_ws [] s"

text \<open>\<^verbatim>\<open>sep.join(xs)\<close>.\<close>

fun py_join :: "string \<Rightarrow> string list \<Rightarrow> string" where
  "py_join sep [] = []"
| "py_join sep [x] = x"
| "py_join sep (x # y # ys) = x @ sep @ py_join sep (y # ys)"

text \<open>\<^verbatim>\<open>s.strip()\<close>.\<close>

definition strip :: "string \<Rightarrow> string" where
  "strip s = rev (dropWhile py_isspace (rev (dropWhile py_isspace s)))"

text \<open>\<^verbatim>\<open>s.replace(old, new)\<close> for a non-empty \<open>old\<close>: occurrences are replaced from the
  left and do not overlap. The counter is the number of characters of the occurrence just
  replaced that are still to be skipped.\<close>

fun replace_from :: "string \<Rightarrow> string \<Rightarrow> nat \<Rightarrow> string \<Rightarrow> string" where
  "replace_from old new k [] = []"
| "replace_from old new (Suc k) (c # cs) = replace_from old new k cs"
| "replace_from old new 0 (c # cs) =
     (if startswith (c # cs) old then new @ replace_from old new (length old - 1) cs
      else c # replace_from old new 0 cs)"

definition replace :: "string \<Rightarrow> string \<Rightarrow> string \<Rightarrow> string" where
  "replace s old new = replace_from old new 0 s"

text \<open>\<^verbatim>\<open>str(n)\<close> for an integer.\<close>

definition digit_char :: "nat \<Rightarrow> char" where
  "digit_char d = char_of (48 + d)"

fun str_nat :: "nat \<Rightarrow> string" where
  "str_nat n = (if n < 10 then [digit_char n] else str_nat (n div 10) @ [digit_char (n mod 10)])"

definition str_int :: "int \<Rightarrow> string" where
  "str_int i = (if i < 0 then CHR ''-'' # str_nat (nat (- i)) else str_nat (nat i))"

text \<open>The length of the longest prefix whose characters all satisfy \<open>P\<close>: what a greedy
  \<^verbatim>\<open>[class]*\<close> consumes.\<close>

definition run_len :: "(char \<Rightarrow> bool) \<Rightarrow> string \<Rightarrow> nat" where
  "run_len P s = length (takeWhile P s)"

subsection \<open>Floating-point numbers\<close>

text \<open>Rounding to the nearest integer, ties to the even one.\<close>

definition rhe :: "rat \<Rightarrow> int" where
  "rhe x = (let f = \<lfloor>x\<rfloor>; r = x - of_int f in
     if r < 1 / 2 then f else if 1 / 2 < r then f + 1 else if even f then f else f + 1)"

text \<open>The binary exponent \<open>e\<close> of a non-zero \<open>x\<close>: \<open>2\<^sup>e \<le> |x| < 2\<^sup>e\<^sup>+\<^sup>1\<close>.\<close>

definition expo :: "rat \<Rightarrow> int" where
  "expo x = (let (p, q) = quotient_of \<bar>x\<bar>; n = bitlen p - bitlen q in
     if 2 powi n \<le> \<bar>x\<bar> then n else n - 1)"

text \<open>The binary64 number nearest to \<open>x\<close>.\<close>

definition fl :: "rat \<Rightarrow> rat" where
  "fl x = (if x = 0 then 0 else
     let u = 2 powi (expo x - 52) in of_int (rhe (x / u)) * u)"

datatype py_error = ZeroDivisionError

text \<open>\<^verbatim>\<open>a / b\<close> on two integers (correctly rounded) and on two floats; \<^verbatim>\<open>a * b\<close>,
  \<^verbatim>\<open>a + b\<close>, \<^verbatim>\<open>a - b\<close> on floats.\<close>

definition int_truediv :: "int \<Rightarrow> int \<Rightarrow> py_error + rat" where
  "int_truediv a b = (if b = 0 then Inl ZeroDivisionError else Inr (fl (of_int a / of_int b)))"

definition float_div :: "rat \<Rightarrow> rat \<Rightarrow> py_error + rat" where
  "float_div a b = (if b = 0 then Inl ZeroDivisionError else Inr (fl (a / b)))"

definition float_mul :: "rat \<Rightarrow> rat \<Rightarrow> rat" where
  "float_mul a b = fl (a * b)"

definition float_add :: "rat \<Rightarrow> rat \<Rightarrow> rat" where
  "float_add a b = fl (a + b)"

definition float_sub :: "rat \<Rightarrow> rat \<Rightarrow> rat" where
  "float_sub a b = fl (a - b)"

text \<open>\<^verbatim>\<open>round(x, n)\<close> on a float: the exact value of \<open>x\<close> is rounded to \<open>n\<close> decimals, ties
  to even, and the decimal result is converted back to the nearest float.\<close>

definition py_round :: "rat \<Rightarrow> nat \<Rightarrow> rat" where
  "py_round x n = fl (of_int (rhe (x * 10 ^ n)) / 10 ^ n)"

section \<open>Data model\<close>

text \<open>The dataclasses of \<^verbatim>\<open>code_parser.py\<close>, \<^verbatim>\<open>llm_interface.py\<close> and \<^verbatim>\<open>evaluator.py\<close>.
  The fields of \<^verbatim>\<open>ClassInfo\<close> carry the prefix \<open>cls_\<close> where \<^verbatim>\<open>FunctionInfo\<close> has a field
  of the same name.\<close>

record FunctionInfo =
  name :: string
  params :: "string list"
  return_annotation :: "string option"
  docstring :: "string option"
  line_start :: int
  line_end :: int
  body :: string

record ClassInfo =
  cls_name :: string
  methods :: "FunctionInfo list"
  cls_docstring :: "string option"
  cls_line_start :: int
  cls_line_end :: int

record CodeStructure =
  "functions" :: "FunctionInfo list"
  classes :: "ClassInfo list"
  module_docstring :: "string option"
  total_lines :: nat
  is_valid :: bool
  error_message :: "string option"

record DocumentationOutput =
  function_name :: string
  description :: string
  param_descriptions :: "string \<rightharpoonup> string"
  return_description :: string
  examples :: "string list"
  inline_comments :: "string list"

text \<open>The truth value of an \<^verbatim>\<open>Optional[str]\<close>: \<^verbatim>\<open>None\<close> and the empty string are false.\<close>

definition truthy :: "string option \<Rightarrow> bool" where
  "truthy so = (case so of None \<Rightarrow> False | Some s \<Rightarrow> s \<noteq> [])"

section \<open>Layer 2: the code parser\<close>

text \<open>
  \<^verbatim>\<open>ast.parse\<close> belongs to the Python standard library, not to the repository: it is a
  parameter \<open>ast_parse\<close> of the model. It returns a module, raises \<^verbatim>\<open>SyntaxError\<close> (whose
  \<^verbatim>\<open>lineno\<close> is an integer or \<^verbatim>\<open>None\<close>) or raises another exception. A node of the tree
  keeps what the parser reads from it: for a function definition its name, the names of
  \<^verbatim>\<open>args.args\<close>, \<^verbatim>\<open>ast.unparse(returns)\<close>, \<^verbatim>\<open>ast.get_docstring\<close>, \<^verbatim>\<open>lineno\<close>, \<^verbatim>\<open>end_lineno\<close> and
  the statements of its body; for a class definition its name, docstring, line numbers
  and body; any other statement only its child statements. Expression nodes hold no
  definition and are left out.
\<close>

datatype ast_node =
    FunctionDef string "string list" "string option" "string option" int "int option"
      "ast_node list"
  | ClassDef string "string option" int "int option" "ast_node list"
  | OtherNode "ast_node list"

record module_ast =
  mod_body :: "ast_node list"
  mod_docstring :: "string option"

datatype parse_outcome =
    Parsed module_ast
  | SyntaxError_raised "int option" string
  | Exception_raised string

fun children :: "ast_node \<Rightarrow> ast_node list" where
  "children (FunctionDef n a r d l e b) = b"
| "children (ClassDef n d l e b) = b"
| "children (OtherNode b) = b"

text \<open>\<^verbatim>\<open>ast.walk\<close>: breadth first, the queue is the argument.\<close>

function walk :: "ast_node list \<Rightarrow> ast_node list" where
  "walk [] = []"
| "walk (n # todo) = n # walk (todo @ children n)"
  by pat_completeness auto
termination
  by (relation "measure (size_list size)") (auto split: ast_node.splits, case_tac n, auto)

text \<open>The slice \<^verbatim>\<open>xs[a:b]\<close>, where \<open>b\<close> may be \<^verbatim>\<open>None\<close>.\<close>

definition slice_index :: "nat \<Rightarrow> int \<Rightarrow> nat" where
  "slice_index n i = (if i < 0 then nat (max 0 (int n + i)) else min n (nat i))"

definition py_slice :: "'a list \<Rightarrow> int \<Rightarrow> int option \<Rightarrow> 'a list" where
  "py_slice xs a b =
     (let n = length xs; lo = slice_index n a;
          hi = (case b of None \<Rightarrow> n | Some j \<Rightarrow> slice_index n j)
      in take (hi - lo) (drop lo xs))"

record CodeParser =
  tree :: "module_ast option"
  source_lines :: "string list"

text \<open>What the f-string writes for \<^verbatim>\<open>e.lineno\<close>.\<close>

definition format_lineno :: "int option \<Rightarrow> string" where
  "format_lineno lineno = (case lineno of None \<Rightarrow> ''None'' | Some i \<Rightarrow> str_int i)"

definition validate_syntax ::
  "(string \<Rightarrow> parse_outcome) \<Rightarrow> string \<Rightarrow> CodeParser \<Rightarrow> (bool \<times> string option) \<times> CodeParser" where
  "validate_syntax ast_parse code self =
     (case ast_parse code of
        Parsed t \<Rightarrow>
          ((True, None), self\<lparr>tree := Some t, source_lines := split_on (CHR 0x0A) code\<rparr>)
      | SyntaxError_raised lineno msg \<Rightarrow>
          ((False, Some (''Syntax error at line '' @ format_lineno lineno @ '': '' @ msg)), self)
      | Exception_raised s \<Rightarrow> ((False, Some s), self))"

fun parse_function :: "string \<Rightarrow> ast_node \<Rightarrow> FunctionInfo option" where
  "parse_function code (FunctionDef n args returns doc lineno end_lineno b) =
     Some \<lparr>name = n, params = args, return_annotation = returns, docstring = doc,
           line_start = lineno,
           line_end = (case end_lineno of None \<Rightarrow> lineno
                       | Some e \<Rightarrow> if e = 0 then lineno else e),
           body = py_join [CHR 0x0A]
                    (py_slice (split_on (CHR 0x0A) code) (lineno - 1) end_lineno)\<rparr>"
| "parse_function code _ = None"

fun parse_class :: "string \<Rightarrow> ast_node \<Rightarrow> ClassInfo option" where
  "parse_class code (ClassDef n doc lineno end_lineno b) =
     Some \<lparr>cls_name = n, methods = List.map_filter (parse_function code) b,
           cls_docstring = doc, cls_line_start = lineno,
           cls_line_end = (case end_lineno of None \<Rightarrow> lineno
                           | Some e \<Rightarrow> if e = 0 then lineno else e)\<rparr>"
| "parse_class code _ = None"

text \<open>\<^verbatim>\<open>extract_functions\<close> and \<^verbatim>\<open>extract_classes\<close> parse only when no tree is stored.\<close>

definition extract_functions ::
  "(string \<Rightarrow> parse_outcome) \<Rightarrow> string \<Rightarrow> CodeParser \<Rightarrow> FunctionInfo list \<times> CodeParser" where
  "extract_functions ast_parse code self =
     (let (ok, self') = (if tree self = None
                         then (let ((v, e), s) = validate_syntax ast_parse code self in (v, s))
                         else (True, self))
      in if \<not> ok then ([], self')
         else (case tree self' of None \<Rightarrow> ([], self')
               | Some t \<Rightarrow> (List.map_filter (parse_function code) (mod_body t), self')))"

definition extract_classes ::
  "(string \<Rightarrow> parse_outcome) \<Rightarrow> string \<Rightarrow> CodeParser \<Rightarrow> ClassInfo list \<times> CodeParser" where
  "extract_classes ast_parse code self =
     (let (ok, self') = (if tree self = None
                         then (let ((v, e), s) = validate_syntax ast_parse code self in (v, s))
                         else (True, self))
      in if \<not> ok then ([], self')
         else (case tree self' of None \<Rightarrow> ([], self')
               | Some t \<Rightarrow> (List.map_filter (parse_class code) (walk (mod_body t)), self')))"

definition get_structure ::
  "(string \<Rightarrow> parse_outcome) \<Rightarrow> string \<Rightarrow> CodeParser \<Rightarrow> CodeStructure \<times> CodeParser" where
  "get_structure ast_parse code self =
     (let ((valid, error_msg), s1) = validate_syntax ast_parse code self in
      if \<not> valid then
        (\<lparr>functions = [], classes = [], module_docstring = None,
          total_lines = length (split_on (CHR 0x0A) code), is_valid = False,
          error_message = error_msg\<rparr>, s1)
      else
        (let (fs, s2) = extract_functions ast_parse code s1;
             (cs, s3) = extract_classes ast_parse code s2
         in (\<lparr>functions = fs, classes = cs,
              module_docstring = (case tree s3 of None \<Rightarrow> None | Some t \<Rightarrow> mod_docstring t),
              total_lines = length (source_lines s3), is_valid = True,
              error_message = None\<rparr>, s3)))"

section \<open>Layer 3: template-based generation\<close>

subsection \<open>Splitting a function name\<close>

text \<open>
  The regular expression of \<^verbatim>\<open>_split_function_name\<close> is
  \<^verbatim>\<open>[A-Z]?[a-z]+|[A-Z]+(?=[A-Z][a-z]|\d|\W|$)|\d+\<close>. \<open>camel_lookahead\<close> is the lookahead of
  its second alternative on the rest of the string; \<open>camel_upper\<close> gives back characters of
  the greedy run \<^verbatim>\<open>[A-Z]+\<close> one at a time until the lookahead holds; \<open>camel_match_len\<close> is the
  length of the match at the head of the string, 0 when there is none (no alternative matches
  the empty string); \<open>camel_scan\<close> is \<^verbatim>\<open>re.findall\<close>, its counter the number of characters of
  the last match still to be passed.
\<close>

definition camel_lookahead :: "string \<Rightarrow> bool" where
  "camel_lookahead t =
     (case t of [] \<Rightarrow> True
      | c # cs \<Rightarrow> (py_isupper c \<and> (case cs of [] \<Rightarrow> False | d # ds \<Rightarrow> py_islower d))
                 \<or> py_isdigit c \<or> \<not> is_word_char c)"

fun camel_upper :: "string \<Rightarrow> nat \<Rightarrow> nat" where
  "camel_upper s 0 = 0"
| "camel_upper s (Suc k) = (if camel_lookahead (drop (Suc k) s) then Suc k else camel_upper s k)"

definition camel_match_len :: "string \<Rightarrow> nat" where
  "camel_match_len s =
     (case s of [] \<Rightarrow> 0
      | c # cs \<Rightarrow>
          (let alt1 = (if py_isupper c \<and> (case cs of [] \<Rightarrow> False | d # ds \<Rightarrow> py_islower d)
                       then 1 + run_len py_islower cs
                       else run_len py_islower s);
               alt2 = camel_upper s (run_len py_isupper s);
               alt3 = run_len py_isdigit s
           in if 0 < alt1 then alt1 else if 0 < alt2 then alt2 else alt3))"

fun camel_scan :: "nat \<Rightarrow> string \<Rightarrow> string list" where
  "camel_scan k [] = []"
| "camel_scan (Suc k) (c # cs) = camel_scan k cs"
| "camel_scan 0 (c # cs) =
     (let n = camel_match_len (c # cs)
      in if n = 0 then camel_scan 0 cs else take n (c # cs) # camel_scan (n - 1) cs)"

definition split_function_name :: "string \<Rightarrow> string list" where
  "split_function_name nm =
     (if CHR ''_'' \<in> set nm then split_on (CHR ''_'') nm
      else map lower (camel_scan 0 nm))"

subsection \<open>Description, parameters, return value, examples, comments\<close>

definition action_templates :: "(string \<times> string) list" where
  "action_templates =
     [(''get'', ''Retrieves''), (''set'', ''Sets or updates''), (''calculate'', ''Calculates''),
      (''compute'', ''Computes''), (''process'', ''Processes''), (''validate'', ''Validates''),
      (''check'', ''Checks''), (''find'', ''Finds''), (''search'', ''Searches for''),
      (''create'', ''Creates''), (''generate'', ''Generates''), (''build'', ''Builds''),
      (''parse'', ''Parses''), (''format'', ''Formats''), (''convert'', ''Converts''),
      (''transform'', ''Transforms''), (''sort'', ''Sorts''), (''filter'', ''Filters''),
      (''load'', ''Loads''), (''save'', ''Saves''), (''delete'', ''Deletes''),
      (''update'', ''Updates''), (''add'', ''Adds''), (''remove'', ''Removes'')]"

definition non_self :: "string list \<Rightarrow> string list" where
  "non_self ps = filter (\<lambda>p. p \<noteq> ''self'') ps"

definition generate_description :: "string \<Rightarrow> string list \<Rightarrow> string list \<Rightarrow> string" where
  "generate_description func_name name_parts ps =
     (let action = (case name_parts of [] \<Rightarrow> ''process'' | a # _ \<Rightarrow> a);
          action_desc = (case map_of action_templates action of
                           Some d \<Rightarrow> d | None \<Rightarrow> capitalize action @ ''s'');
          d1 = (if 1 < length name_parts
                then action_desc @ '' '' @ py_join '' '' (tl name_parts)
                else action_desc @ '' the input data'');
          d2 = (if 2 < length (non_self ps) then d1 @ '' with multiple parameters'' else d1);
          d3 = d2 @ ''.'';
          t1 = [CHR 0x0A, CHR 0x0A] @ ''This function performs '' @ action @ '' operations'';
          t2 = (if 1 < length name_parts then t1 @ '' on '' @ py_join '' '' (tl name_parts)
                else t1);
          detailed = t2 @
            ''. It is designed to handle various input scenarios and provide reliable results.''
      in d3 @ detailed)"

definition generate_param_description :: "string \<Rightarrow> string \<Rightarrow> string" where
  "generate_param_description param func_name =
     (let param_lower = lower param in
      if param_lower \<in> set [''data'', ''input'', ''value'']
        then ''The input '' @ param @ '' to be processed''
      else if param_lower \<in> set [''name'', ''filename'', ''file'']
        then ''The '' @ param @ '' of the file or resource''
      else if param_lower \<in> set [''path'', ''filepath'']
        then ''The '' @ param @ '' to the file or directory''
      else if param_lower \<in> set [''key'', ''id'', ''identifier'']
        then ''Unique '' @ param @ '' for identification''
      else if param_lower \<in> set [''options'', ''config'', ''settings'']
        then ''Configuration '' @ param @ '' for the operation''
      else if param_lower \<in> set [''items'', ''list'', ''array'']
        then ''Collection of '' @ param @ '' to process''
      else if py_in ''count'' param_lower \<or> py_in ''num'' param_lower \<or> py_in ''size'' param_lower
        then ''The '' @ param @ '' specifying quantity''
      else if py_in ''flag'' param_lower \<or> py_in ''enable'' param_lower
              \<or> startswith param_lower ''is_''
        then ''Boolean flag indicating whether to '' @ replace (replace param ''is_'' []) ''_'' '' ''
      else ''The '' @ param @ '' parameter'')"

definition generate_return_description :: "string \<Rightarrow> string option \<Rightarrow> string" where
  "generate_return_description func_name ra =
     (if truthy ra then
        (let r = the ra in
         if py_in ''bool'' (lower r)
           then ''Boolean value indicating success or validation result''
         else if py_in ''int'' (lower r)
           then ''Integer value representing the computed result or count''
         else if py_in ''str'' (lower r)
           then ''String containing the processed or formatted output''
         else if py_in ''list'' (lower r) \<or> py_in ''List'' r
           then ''List of processed items or results''
         else if py_in ''dict'' (lower r) \<or> py_in ''Dict'' r
           then ''Dictionary containing structured result data''
         else r @ '' object with the result'')
      else if startswith func_name ''is_'' \<or> startswith func_name ''has_''
              \<or> startswith func_name ''check_''
        then ''Boolean value indicating the validation result''
      else if startswith func_name ''get_'' \<or> startswith func_name ''find_''
        then ''The requested data or resource''
      else if startswith func_name ''calculate_'' \<or> startswith func_name ''compute_''
        then ''The calculated numerical result''
      else ''The processed result of the operation'')"

definition example_value :: "string \<Rightarrow> string" where
  \<open>example_value param =
     (let param_lower = lower param in
      if py_in ''name'' param_lower \<or> py_in ''str'' param_lower
        then [CHR 0x22] @ param @ ''_value'' @ [CHR 0x22]
      else if py_in ''num'' param_lower \<or> py_in ''count'' param_lower \<or> py_in ''size'' param_lower
        then ''10''
      else if py_in ''list'' param_lower \<or> py_in ''items'' param_lower
        then ''[1, 2, 3]''
      else if py_in ''dict'' param_lower \<or> py_in ''data'' param_lower
        then ''{"key": "value"}''
      else if startswith param_lower ''is_'' \<or> py_in ''flag'' param_lower
        then ''True''
      else param @ ''_value'')\<close>

definition generate_examples :: "string \<Rightarrow> string list \<Rightarrow> string list" where
  "generate_examples func_name ps =
     (let non_self_params = non_self ps in
      if non_self_params = [] then [''>>> '' @ func_name @ ''()'', ''result'']
      else (let example_values = map example_value non_self_params;
                example_call = ''>>> '' @ func_name @ ''('' @ py_join '', '' example_values @ '')''
            in [example_call, ''expected_result'']))"

definition generate_inline_comments :: "FunctionInfo \<Rightarrow> string list" where
  "generate_inline_comments func_info =
     (if 1 < length (params func_info) then [''# Validate input parameters''] else [])
     @ [''# Perform main operation'']
     @ (if py_in ''return'' (lower (body func_info)) \<or> truthy (return_annotation func_info)
        then [''# Return processed result''] else [])"

text \<open>The loop that fills the dictionary \<^verbatim>\<open>param_descriptions\<close>.\<close>

fun describe_params :: "string \<Rightarrow> string list \<Rightarrow> (string \<rightharpoonup> string) \<Rightarrow> (string \<rightharpoonup> string)" where
  "describe_params func_name [] d = d"
| "describe_params func_name (param # ps) d =
     (if param = ''self'' then describe_params func_name ps d
      else describe_params func_name ps
             (d(param \<mapsto> generate_param_description param func_name)))"

definition generate_with_mock :: "FunctionInfo \<Rightarrow> DocumentationOutput" where
  "generate_with_mock func_info =
     (let name_parts = split_function_name (name func_info) in
      \<lparr>function_name = name func_info,
       description = generate_description (name func_info) name_parts (params func_info),
       param_descriptions = describe_params (name func_info) (params func_info) Map.empty,
       return_description =
         generate_return_description (name func_info) (return_annotation func_info),
       examples = generate_examples (name func_info) (params func_info),
       inline_comments = generate_inline_comments func_info\<rparr>)"

section \<open>Layer 4: the documentation generator\<close>

text \<open>\<open>google_lines\<close> and \<open>numpy_lines\<close> are the list \<^verbatim>\<open>lines\<close> that \<^verbatim>\<open>_format_google_style\<close>
  and \<^verbatim>\<open>_format_numpy_style\<close> build before joining it with newlines.\<close>

definition detailed_lines :: "string \<Rightarrow> string list" where
  "detailed_lines descr =
     (let detailed_parts = tl (split_on (CHR 0x0A) descr) in
      if detailed_parts \<noteq> []
      then map strip (filter (\<lambda>part. strip part \<noteq> []) detailed_parts) @ [[]]
      else [])"

definition param_desc_of :: "DocumentationOutput \<Rightarrow> string \<Rightarrow> string" where
  "param_desc_of ai_output param =
     (case param_descriptions ai_output param of
        Some d \<Rightarrow> d | None \<Rightarrow> ''The '' @ param @ '' parameter'')"

definition google_lines :: "FunctionInfo \<Rightarrow> DocumentationOutput \<Rightarrow> string list" where
  \<open>google_lines func_info ai_output =
     [''"""'' @ hd (split_on (CHR 0x0A) (description ai_output)), []]
     @ detailed_lines (description ai_output)
     @ (let ps = non_self (params func_info) in
        if ps \<noteq> []
        then [''Args:''] @ map (\<lambda>param. ''    '' @ param @ '': '' @ param_desc_of ai_output param) ps
             @ [[]]
        else [])
     @ (if truthy (return_annotation func_info) \<or> return_description ai_output \<noteq> []
        then [''Returns:'', ''    '' @ return_description ai_output, []] else [])
     @ (if examples ai_output \<noteq> []
        then [''Examples:''] @ map (\<lambda>example. ''    '' @ example) (examples ai_output) @ [[]]
        else [])
     @ [''"""'']\<close>

definition format_google_style :: "FunctionInfo \<Rightarrow> DocumentationOutput \<Rightarrow> string" where
  "format_google_style func_info ai_output = py_join [CHR 0x0A] (google_lines func_info ai_output)"

definition numpy_lines :: "FunctionInfo \<Rightarrow> DocumentationOutput \<Rightarrow> string list" where
  \<open>numpy_lines func_info ai_output =
     [''"""'' @ hd (split_on (CHR 0x0A) (description ai_output)), []]
     @ detailed_lines (description ai_output)
     @ (let ps = non_self (params func_info) in
        if ps \<noteq> []
        then [''Parameters'', ''----------'']
             @ concat (map (\<lambda>param. [param @ '' : type'', ''    '' @ param_desc_of ai_output param]) ps)
             @ [[]]
        else [])
     @ (if truthy (return_annotation func_info) \<or> return_description ai_output \<noteq> []
        then [''Returns'', ''-------'',
              (if truthy (return_annotation func_info) then the (return_annotation func_info)
               else ''type''),
              ''    '' @ return_description ai_output, []]
        else [])
     @ (if examples ai_output \<noteq> []
        then [''Examples'', ''--------''] @ examples ai_output @ [[]]
        else [])
     @ [''"""'']\<close>

definition format_numpy_style :: "FunctionInfo \<Rightarrow> DocumentationOutput \<Rightarrow> string" where
  "format_numpy_style func_info ai_output = py_join [CHR 0x0A] (numpy_lines func_info ai_output)"

text \<open>\<open>style\<close> is the attribute set by the constructor, already in lower case.\<close>

definition generate_function_docs :: "string \<Rightarrow> FunctionInfo \<Rightarrow> DocumentationOutput \<Rightarrow> string" where
  "generate_function_docs style func_info ai_output =
     (if style = ''google'' then format_google_style func_info ai_output
      else if style = ''numpy'' then format_numpy_style func_info ai_output
      else format_google_style func_info ai_output)"

section \<open>Layer 5: the evaluation engine\<close>

record EvaluationResult =
  keyword_overlap_score :: rat
  coverage_score :: rat
  length_ratio :: rat
  consistency_score :: rat
  overall_score :: rat
  detailed_analysis :: "(string \<times> rat \<times> string) list"

definition stop_words :: "string list" where
  "stop_words =
     [''the'', ''a'', ''an'', ''and'', ''or'', ''but'', ''in'', ''on'', ''at'', ''to'', ''for'',
      ''of'', ''with'', ''by'', ''from'', ''as'', ''is'', ''was'', ''are'', ''were'', ''be'',
      ''been'', ''being'', ''have'', ''has'', ''had'', ''do'', ''does'', ''did'', ''will'',
      ''would'', ''should'', ''could'', ''may'', ''might'', ''must'', ''can'', ''this'',
      ''that'', ''these'', ''those'', ''it'', ''its'']"

text \<open>\<^verbatim>\<open>re.sub(r'[^a-z0-9\s]', ' ', text)\<close> works character by character.\<close>

definition keep_or_blank :: "char \<Rightarrow> char" where
  "keep_or_blank c = (if py_islower c \<or> py_isdigit c \<or> py_isspace c then c else CHR '' '')"

definition extract_keywords :: "string \<Rightarrow> string set" where
  "extract_keywords text =
     (let words = py_split (map keep_or_blank (lower text))
      in set (filter (\<lambda>word. word \<notin> set stop_words \<and> 2 < length word) words))"

definition calculate_keyword_overlap :: "string \<Rightarrow> string \<Rightarrow> py_error + rat" where
  "calculate_keyword_overlap ai_docs human_docs =
     (let ai_keywords = extract_keywords ai_docs;
          human_keywords = extract_keywords human_docs
      in if ai_keywords = {} \<or> human_keywords = {} then Inr 0
         else (case int_truediv (int (card (ai_keywords \<inter> human_keywords)))
                                (int (card (ai_keywords \<union> human_keywords))) of
                 Inl e \<Rightarrow> Inl e
               | Inr jaccard_similarity \<Rightarrow> Inr (py_round (float_mul jaccard_similarity 100) 2)))"

definition documented_count :: "string \<Rightarrow> CodeStructure \<Rightarrow> nat" where
  "documented_count docs code_structure =
     length (filter (\<lambda>func. py_in (lower (name func)) (lower docs)) (functions code_structure))
     + length (filter (\<lambda>cls. py_in (lower (cls_name cls)) (lower docs)) (classes code_structure))"

definition calculate_coverage :: "string \<Rightarrow> CodeStructure \<Rightarrow> py_error + rat" where
  "calculate_coverage docs code_structure =
     (let total_elements = length (functions code_structure) + length (classes code_structure)
      in if total_elements = 0 then Inr 100
         else (case int_truediv (int (documented_count docs code_structure))
                                (int total_elements) of
                 Inl e \<Rightarrow> Inl e
               | Inr q \<Rightarrow> Inr (py_round (float_mul q 100) 2)))"

definition calculate_length_ratio :: "string \<Rightarrow> string \<Rightarrow> py_error + rat" where
  "calculate_length_ratio ai_docs human_docs =
     (let ai_words = length (py_split ai_docs);
          human_words = length (py_split human_docs)
      in if human_words = 0 then Inr 1
         else (case int_truediv (int ai_words) (int human_words) of
                 Inl e \<Rightarrow> Inl e
               | Inr ratio \<Rightarrow> Inr (py_round ratio 2)))"

text \<open>\<^verbatim>\<open>re.search\<close> for an alternation of literal strings, with and without
  \<^verbatim>\<open>re.IGNORECASE\<close>.\<close>

definition search_any :: "string list \<Rightarrow> string \<Rightarrow> bool" where
  "search_any alts s = list_ex (\<lambda>a. py_in a s) alts"

definition search_any_ci :: "string list \<Rightarrow> string \<Rightarrow> bool" where
  "search_any_ci alts s = list_ex (\<lambda>a. py_in (lower a) (lower s)) alts"

text \<open>
  \<^verbatim>\<open>re.findall(r'^(Args|Parameters|Returns|Examples):', docs, re.MULTILINE | re.IGNORECASE)\<close>:
  \<open>match_header\<close> is the group matched at the head of the string, \<open>header_scan\<close> goes through
  the text, its flag telling whether the position is the start of a line.
\<close>

definition match_header :: "string \<Rightarrow> string option" where
  "match_header s =
     map_option (\<lambda>a. take (length a) s)
       (find (\<lambda>a. startswith (lower s) (lower a @ '':''))
          [''Args'', ''Parameters'', ''Returns'', ''Examples''])"

fun header_scan :: "bool \<Rightarrow> string \<Rightarrow> string list" where
  "header_scan at_start [] = []"
| "header_scan at_start (c # cs) =
     (case (if at_start then match_header (c # cs) else None) of
        Some h \<Rightarrow> h # header_scan (c = CHR 0x0A) cs
      | None \<Rightarrow> header_scan (c = CHR 0x0A) cs)"

text \<open>
  \<^verbatim>\<open>re.findall(r'^\s+\w+:.*$', docs, re.MULTILINE)\<close>: \<open>param_match_len\<close> is the length of the
  match at the head of the string (0 when there is none), \<open>param_scan\<close> goes through the
  text with the line-start flag and the number of matched characters still to be passed.
\<close>

definition param_match_len :: "string \<Rightarrow> nat" where
  "param_match_len s =
     (let ws = run_len py_isspace s; r1 = drop ws s;
          w = run_len is_word_char r1; r2 = drop w r1
      in if 0 < ws \<and> 0 < w \<and> startswith r2 '':''
         then ws + w + 1 + run_len (\<lambda>c. c \<noteq> CHR 0x0A) (tl r2) else 0)"

fun param_scan :: "bool \<Rightarrow> nat \<Rightarrow> string \<Rightarrow> string list" where
  "param_scan at_start k [] = []"
| "param_scan at_start (Suc k) (c # cs) = param_scan (c = CHR 0x0A) k cs"
| "param_scan at_start 0 (c # cs) =
     (let n = (if at_start then param_match_len (c # cs) else 0)
      in if n = 0 then param_scan (c = CHR 0x0A) 0 cs
         else take n (c # cs) # param_scan (c = CHR 0x0A) (n - 1) cs)"

definition consistency_checks :: "string \<Rightarrow> bool list" where
  "consistency_checks docs =
     (let has_args = search_any_ci [''Args:'', ''Parameters:''] docs;
          has_returns = search_any_ci [''Returns:'', ''Return:''] docs;
          has_examples = search_any [''Example'', ''>>>''] docs;
          sections = header_scan True docs;
          capitalized = length (filter (\<lambda>s. py_isupper (hd s)) sections);
          check4 = (if sections \<noteq> [] then capitalized = length sections \<or> capitalized = 0
                    else False);
          param_lines = param_scan True 0 docs;
          check5 = (if param_lines \<noteq> [] then 1 \<le> length param_lines else True)
      in [has_args, has_returns, has_examples, check4, check5])"

definition calculate_consistency :: "string \<Rightarrow> py_error + rat" where
  "calculate_consistency docs =
     (let checks = consistency_checks docs in
      case int_truediv (int (length (filter id checks))) (int (length checks)) of
        Inl e \<Rightarrow> Inl e
      | Inr q \<Rightarrow> Inr (py_round (float_mul q 100) 2))"

text \<open>The interpretations are the texts of the source without their leading symbol.\<close>

definition interpret_keyword_overlap :: "rat \<Rightarrow> string" where
  "interpret_keyword_overlap score =
     (if 80 \<le> score then ''Excellent - High semantic similarity''
      else if 60 \<le> score then ''Good - Adequate coverage of key concepts''
      else if 40 \<le> score then ''Moderate - Some important concepts missing''
      else ''Low - Significant semantic differences'')"

definition interpret_coverage :: "rat \<Rightarrow> string" where
  "interpret_coverage score =
     (if score = 100 then ''Perfect - All elements documented''
      else if 80 \<le> score then ''High - Most elements documented''
      else if 60 \<le> score then ''Moderate - Some elements missing documentation''
      else ''Low - Many elements undocumented'')"

definition interpret_length_ratio :: "rat \<Rightarrow> string" where
  "interpret_length_ratio ratio =
     (if fl (8 / 10) \<le> ratio \<and> ratio \<le> fl (12 / 10)
        then ''Balanced - Similar verbosity to human docs''
      else if fl (12 / 10) < ratio then ''Verbose - AI documentation is more detailed''
      else ''Concise - AI documentation is briefer'')"

definition interpret_consistency :: "rat \<Rightarrow> string" where
  "interpret_consistency score =
     (if 90 \<le> score then ''Highly Consistent - Uniform style throughout''
      else if 70 \<le> score then ''Generally Consistent - Minor variations''
      else if 50 \<le> score then ''Moderately Consistent - Some inconsistencies''
      else ''Inconsistent - Significant style variations'')"

text \<open>The third term of the weighted sum:
  \<^verbatim>\<open>min(100, (1.0 / abs(length_ratio - 1.0 + 0.1)) * 10)\<close>.\<close>

definition length_term :: "rat \<Rightarrow> py_error + rat" where
  "length_term ratio =
     (case float_div 1 \<bar>float_add (float_sub ratio 1) (fl (1 / 10))\<bar> of
        Inl e \<Rightarrow> Inl e
      | Inr q \<Rightarrow> Inr (let x = float_mul q 10 in if x < 100 then x else 100))"

definition weighted_sum :: "rat \<Rightarrow> rat \<Rightarrow> rat \<Rightarrow> rat \<Rightarrow> rat" where
  "weighted_sum keyword_score coverage lterm consistency =
     float_add
       (float_add
          (float_add (float_mul keyword_score (fl (35 / 100)))
                     (float_mul coverage (fl (30 / 100))))
          (float_mul lterm (fl (15 / 100))))
       (float_mul consistency (fl (20 / 100)))"

definition evaluate :: "string \<Rightarrow> string \<Rightarrow> CodeStructure \<Rightarrow> py_error + EvaluationResult" where
  "evaluate ai_docs human_docs code_structure =
     (case calculate_keyword_overlap ai_docs human_docs of Inl e \<Rightarrow> Inl e
      | Inr keyword_score \<Rightarrow>
     (case calculate_coverage ai_docs code_structure of Inl e \<Rightarrow> Inl e
      | Inr coverage \<Rightarrow>
     (case calculate_length_ratio ai_docs human_docs of Inl e \<Rightarrow> Inl e
      | Inr ratio \<Rightarrow>
     (case calculate_consistency ai_docs of Inl e \<Rightarrow> Inl e
      | Inr consistency \<Rightarrow>
     (case length_term ratio of Inl e \<Rightarrow> Inl e
      | Inr lterm \<Rightarrow>
        Inr \<lparr>keyword_overlap_score = keyword_score,
             coverage_score = coverage,
             length_ratio = ratio,
             consistency_score = consistency,
             overall_score = weighted_sum keyword_score coverage lterm consistency,
             detailed_analysis =
               [(''keyword_overlap'', keyword_score, interpret_keyword_overlap keyword_score),
                (''coverage'', coverage, interpret_coverage coverage),
                (''length_ratio'', ratio, interpret_length_ratio ratio),
                (''consistency'', consistency, interpret_consistency consistency)]\<rparr>)))))"

section \<open>Concrete inputs\<close>

text \<open>A parser object as the constructor leaves it.\<close>

definition new_parser :: CodeParser where
  "new_parser = \<lparr>tree = None, source_lines = []\<rparr>"

text \<open>What CPython's \<^verbatim>\<open>ast.parse\<close> answers on a source text that holds a NUL character: a
  \<^verbatim>\<open>SyntaxError\<close> whose \<^verbatim>\<open>lineno\<close> is \<^verbatim>\<open>None\<close>.\<close>

definition nul_parse :: "string \<Rightarrow> parse_outcome" where
  "nul_parse code = SyntaxError_raised None ''source code string cannot contain null bytes''"

text \<open>The function record of the end-to-end scenario: its name, its two parameters and no
  return annotation; the other fields are arbitrary.\<close>

definition price_function :: "string option \<Rightarrow> int \<Rightarrow> int \<Rightarrow> string \<Rightarrow> FunctionInfo" where
  "price_function doc l1 l2 src =
     \<lparr>name = ''calculate_total_price'', params = [''items'', ''tax_rate''],
      return_annotation = None, docstring = doc, line_start = l1, line_end = l2, body = src\<rparr>"

text \<open>A class method and its record.\<close>

definition cls_method :: FunctionInfo where
  "cls_method =
     \<lparr>name = ''from_config'', params = [''cls'', ''path''],
      return_annotation = None, docstring = None, line_start = 1, line_end = 2,
      body = ''def from_config(cls, path):\<newline>    return cls(path)''\<rparr>"

text \<open>A short document with two headers at line starts, one parameter line and the word
  \<^verbatim>\<open>Example\<close>.\<close>

definition sample_doc :: string where
  "sample_doc = ''Args:\<newline>    x: the value\<newline>Returns:\<newline>    the result\<newline>Example usage''"

text \<open>A structure with no element, and one with the two functions \<^verbatim>\<open>get\<close> and \<^verbatim>\<open>set\<close>.\<close>

definition empty_structure :: CodeStructure where
  "empty_structure =
     \<lparr>functions = [], classes = [], module_docstring = None, total_lines = 1,
      is_valid = True, error_message = None\<rparr>"



text \<open>Two documents of nine and of ten words, and a document of stop words only.\<close>

definition nine_words :: string where
  "nine_words = ''one two three four five six seven eight nine''"

definition ten_words :: string where
  "ten_words = ''one two three four five six seven eight nine ten''"

definition stop_word_doc :: string where
  "stop_word_doc = ''It is as it was.''"

section \<open>Properties of the floating-point operations\<close>

subsection \<open>Rounding to an integer\<close>

lemma rhe_of_int: "rhe (of_int n) = n"
  by (simp add: rhe_def)

lemma rhe_bounds: "\<lfloor>x\<rfloor> \<le> rhe x \<and> rhe x \<le> \<lfloor>x\<rfloor> + 1"
  by (simp add: rhe_def Let_def)

lemma rhe_mono: "x \<le> y \<Longrightarrow> rhe x \<le> rhe y"
proof -
  assume xy: "x \<le> y"
  have fm: "\<lfloor>x\<rfloor> \<le> \<lfloor>y\<rfloor>" using xy by (rule floor_mono)
  show ?thesis
  proof (cases "\<lfloor>x\<rfloor> = \<lfloor>y\<rfloor>")
    case True
    then have "x - of_int \<lfloor>x\<rfloor> \<le> y - of_int \<lfloor>y\<rfloor>" using xy by simp
    then show ?thesis using True by (auto simp: rhe_def Let_def)
  next
    case False
    then have "\<lfloor>x\<rfloor> + 1 \<le> \<lfloor>y\<rfloor>" using fm by simp
    then show ?thesis using rhe_bounds [of x] rhe_bounds [of y] by linarith
  qed
qed

lemma rhe_minus: "rhe (- x) = - rhe x"
proof (cases "x = of_int \<lfloor>x\<rfloor>")
  case True
  then obtain n where "x = of_int n" ..
  then have "- x = of_int (- n)" by simp
  then show ?thesis using \<open>x = of_int n\<close> by (simp only: rhe_of_int)
next
  case False
  then have lt: "of_int \<lfloor>x\<rfloor> < x" using of_int_floor_le [of x] by (auto simp: less_le)
  have fl_neg: "\<lfloor>- x\<rfloor> = - \<lfloor>x\<rfloor> - 1"
  proof (rule floor_unique)
    have "x < of_int \<lfloor>x\<rfloor> + 1" by linarith
    then show "of_int (- \<lfloor>x\<rfloor> - 1) \<le> - x" by simp
    show "- x < of_int (- \<lfloor>x\<rfloor> - 1) + 1" using lt by simp
  qed
  show ?thesis
    using lt unfolding rhe_def Let_def fl_neg
    by (auto simp: algebra_simps)
qed

subsection \<open>The binary exponent\<close>

lemma int_pow_bounds:
  assumes "0 < (p::int)"
  shows "(2::rat) powi (bitlen p - 1) \<le> of_int p" and "of_int p < (2::rat) powi bitlen p"
proof -
  have b1: "1 \<le> bitlen p" using assms by (auto simp: bitlen_alt_def)
  from bitlen_bounds [OF assms]
  have lo: "2 ^ nat (bitlen p - 1) \<le> p" and hi: "p < 2 ^ nat (bitlen p)" by simp_all
  have "(of_int (2 ^ nat (bitlen p - 1)) :: rat) \<le> of_int p"
    using lo by (simp only: of_int_le_iff)
  then show "(2::rat) powi (bitlen p - 1) \<le> of_int p"
    using b1 by (simp add: power_int_def)
  have "(of_int p :: rat) < of_int (2 ^ nat (bitlen p))"
    using hi by (simp only: of_int_less_iff)
  then show "of_int p < (2::rat) powi bitlen p"
    using b1 by (simp add: power_int_def)
qed

lemma expo_bounds:
  assumes "x \<noteq> 0"
  shows "2 powi expo x \<le> \<bar>x\<bar>" and "\<bar>x\<bar> < 2 powi (expo x + 1)"
proof -
  obtain p q where pq: "quotient_of \<bar>x\<bar> = (p, q)" by (cases "quotient_of \<bar>x\<bar>")
  have q: "0 < q" using quotient_of_denom_pos [OF pq] .
  have x: "\<bar>x\<bar> = of_int p / of_int q" using quotient_of_div [OF pq] .
  have "0 < \<bar>x\<bar>" using assms by simp
  then have p: "0 < p" using q x by (simp add: zero_less_divide_iff)
  let ?n = "bitlen p - bitlen q"
  have qr: "(0::rat) < of_int q" using q by simp
  have up: "\<bar>x\<bar> < 2 powi (?n + 1)"
  proof -
    have "of_int p < (2::rat) powi bitlen p" using int_pow_bounds(2) [OF p] .
    moreover have "(2::rat) powi (bitlen q - 1) \<le> of_int q" using int_pow_bounds(1) [OF q] .
    ultimately have "of_int p * (2::rat) powi (bitlen q - 1) < 2 powi bitlen p * of_int q"
      by (intro mult_less_le_imp_less) (use p in auto)
    then have "of_int p / of_int q < (2::rat) powi bitlen p / 2 powi (bitlen q - 1)"
      using qr by (simp add: field_simps)
    also have "\<dots> = 2 powi (?n + 1)"
      using power_int_diff [of "2::rat" "bitlen p" "bitlen q - 1"]
      by (simp add: algebra_simps)
    finally show ?thesis using x by simp
  qed
  have lo: "2 powi (?n - 1) < \<bar>x\<bar>"
  proof -
    have "(2::rat) powi (bitlen p - 1) \<le> of_int p" using int_pow_bounds(1) [OF p] .
    moreover have "of_int q < (2::rat) powi bitlen q" using int_pow_bounds(2) [OF q] .
    ultimately have "(2::rat) powi (bitlen p - 1) * of_int q < of_int p * 2 powi bitlen q"
      by (intro mult_le_less_imp_less) (use q in auto)
    then have "(2::rat) powi (bitlen p - 1) / 2 powi bitlen q < of_int p / of_int q"
      using qr by (simp add: field_simps)
    moreover have "(2::rat) powi (bitlen p - 1) / 2 powi bitlen q = 2 powi (?n - 1)"
      using power_int_diff [of "2::rat" "bitlen p - 1" "bitlen q"]
      by (simp add: algebra_simps)
    ultimately show ?thesis using x by simp
  qed
  have e: "expo x = (if 2 powi ?n \<le> \<bar>x\<bar> then ?n else ?n - 1)"
    by (simp add: expo_def pq)
  show "2 powi expo x \<le> \<bar>x\<bar>" using lo by (auto simp: e)
  show "\<bar>x\<bar> < 2 powi (expo x + 1)" using up by (auto simp: e)
qed

lemma expo_unique:
  assumes "2 powi k \<le> \<bar>x\<bar>" and "\<bar>x\<bar> < 2 powi (k + 1)"
  shows "expo x = k"
proof -
  have pos: "(0::rat) < 2 powi k" by (rule zero_less_power_int) simp
  have nz: "x \<noteq> 0"
  proof
    assume "x = 0"
    with assms(1) have "(2::rat) powi k \<le> 0" by simp
    with pos show False by linarith
  qed
  have a: "(2::rat) powi k < 2 powi (expo x + 1)"
    using assms(1) expo_bounds(2) [OF nz] by linarith
  have b: "(2::rat) powi expo x < 2 powi (k + 1)"
    using assms(2) expo_bounds(1) [OF nz] by linarith
  have "k < expo x + 1"
  proof (rule ccontr)
    assume "\<not> k < expo x + 1"
    then have "expo x + 1 \<le> k" by simp
    then have "(2::rat) powi (expo x + 1) \<le> 2 powi k" by (rule power_int_increasing) simp
    with a show False by linarith
  qed
  moreover have "expo x < k + 1"
  proof (rule ccontr)
    assume "\<not> expo x < k + 1"
    then have "k + 1 \<le> expo x" by simp
    then have "(2::rat) powi (k + 1) \<le> 2 powi expo x" by (rule power_int_increasing) simp
    with b show False by linarith
  qed
  ultimately show ?thesis by simp
qed

subsection \<open>Rounding to a float is monotone and keeps the sign\<close>

lemma fl_0: "fl 0 = 0"
  by (simp add: fl_def)

lemma expo_minus: "expo (- x) = expo x"
  by (simp add: expo_def)

lemma fl_minus: "fl (- x) = - fl x"
  by (simp add: fl_def expo_minus rhe_minus Let_def)

lemma two_powi_52: "(2::rat) powi e = 2 ^ 52 * 2 powi (e - 52)"
  using power_int_add [of "2::rat" 52 "e - 52"] by simp

lemma two_powi_53: "(2::rat) powi (e + 1) = 2 ^ 53 * 2 powi (e - 52)"
  using power_int_add [of "2::rat" 53 "e - 52"] by (simp add: algebra_simps)

lemma fl_pos_bounds:
  assumes "0 < x"
  shows "2 powi expo x \<le> fl x" and "fl x \<le> 2 powi (expo x + 1)"
proof -
  let ?u = "(2::rat) powi (expo x - 52)"
  have nz: "x \<noteq> 0" using assms by simp
  have u: "0 < ?u" by (rule zero_less_power_int) simp
  have fx: "fl x = of_int (rhe (x / ?u)) * ?u" using nz by (simp add: fl_def Let_def)
  have "2 ^ 52 * ?u \<le> x"
    using expo_bounds(1) [OF nz] assms two_powi_52 [of "expo x"] by simp
  then have "of_int (2 ^ 52) \<le> x / ?u" using u by (simp add: field_simps)
  then have "rhe (of_int (2 ^ 52)) \<le> rhe (x / ?u)" by (rule rhe_mono)
  then have "2 ^ 52 \<le> rhe (x / ?u)" by (simp only: rhe_of_int)
  then have "(of_int (2 ^ 52) :: rat) \<le> of_int (rhe (x / ?u))" by (simp only: of_int_le_iff)
  then have "of_int (2 ^ 52) * ?u \<le> of_int (rhe (x / ?u)) * ?u"
    by (rule mult_right_mono) (use u in simp)
  then show "2 powi expo x \<le> fl x"
    using two_powi_52 [of "expo x"] fx by simp
  have "x < 2 ^ 53 * ?u"
    using expo_bounds(2) [OF nz] assms two_powi_53 [of "expo x"] by simp
  then have "x / ?u \<le> of_int (2 ^ 53)" using u by (simp add: field_simps)
  then have "rhe (x / ?u) \<le> rhe (of_int (2 ^ 53))" by (rule rhe_mono)
  then have "rhe (x / ?u) \<le> 2 ^ 53" by (simp only: rhe_of_int)
  then have "(of_int (rhe (x / ?u)) :: rat) \<le> of_int (2 ^ 53)" by (simp only: of_int_le_iff)
  then have "of_int (rhe (x / ?u)) * ?u \<le> of_int (2 ^ 53) * ?u"
    by (rule mult_right_mono) (use u in simp)
  then show "fl x \<le> 2 powi (expo x + 1)"
    using two_powi_53 [of "expo x"] fx by simp
qed

lemma fl_pos: "0 < x \<Longrightarrow> 0 < fl x"
proof -
  assume x: "0 < x"
  have "(0::rat) < 2 powi expo x" by (rule zero_less_power_int) simp
  with fl_pos_bounds(1) [OF x] show ?thesis by linarith
qed

lemma fl_nonneg: "0 \<le> x \<Longrightarrow> 0 \<le> fl x"
  using fl_pos [of x] by (cases "x = 0") (auto simp: fl_0 less_le)

lemma fl_mono_pos:
  assumes "0 < x" and "x \<le> y"
  shows "fl x \<le> fl y"
proof -
  have y: "0 < y" using assms by linarith
  have nx: "x \<noteq> 0" and ny: "y \<noteq> 0" using assms y by simp_all
  have "(2::rat) powi expo x < 2 powi (expo y + 1)"
    using expo_bounds(1) [OF nx] expo_bounds(2) [OF ny] assms y by simp
  have le: "expo x \<le> expo y"
  proof (rule ccontr)
    assume "\<not> expo x \<le> expo y"
    then have "expo y + 1 \<le> expo x" by simp
    then have "(2::rat) powi (expo y + 1) \<le> 2 powi expo x" by (rule power_int_increasing) simp
    with \<open>(2::rat) powi expo x < 2 powi (expo y + 1)\<close> show False by linarith
  qed
  show ?thesis
  proof (cases "expo x = expo y")
    case True
    let ?u = "(2::rat) powi (expo y - 52)"
    have u: "0 < ?u" by (rule zero_less_power_int) simp
    have "x / ?u \<le> y / ?u" using assms(2) u by (intro divide_right_mono) simp_all
    then have "rhe (x / ?u) \<le> rhe (y / ?u)" by (rule rhe_mono)
    then have "(of_int (rhe (x / ?u)) :: rat) \<le> of_int (rhe (y / ?u))" by (simp only: of_int_le_iff)
    then have "of_int (rhe (x / ?u)) * ?u \<le> of_int (rhe (y / ?u)) * ?u"
      by (rule mult_right_mono) (use u in simp)
    then show ?thesis using nx ny True by (simp add: fl_def Let_def)
  next
    case False
    then have "expo x + 1 \<le> expo y" using le by simp
    then have "(2::rat) powi (expo x + 1) \<le> 2 powi expo y" by (rule power_int_increasing) simp
    with fl_pos_bounds(2) [OF assms(1)] fl_pos_bounds(1) [OF y] show ?thesis by linarith
  qed
qed

lemma fl_mono: "x \<le> y \<Longrightarrow> fl x \<le> fl y"
proof -
  assume xy: "x \<le> y"
  consider "0 < x" | "x = 0" | "x < 0" "y < 0" | "x < 0" "0 \<le> y" by linarith
  then show ?thesis
  proof cases
    case 1
    then show ?thesis using xy by (rule fl_mono_pos)
  next
    case 2
    then show ?thesis using xy fl_nonneg [of y] by (simp add: fl_0)
  next
    case 3
    then have "0 < - y" and "- y \<le> - x" using xy by simp_all
    then have "fl (- y) \<le> fl (- x)" by (rule fl_mono_pos)
    then show ?thesis by (simp add: fl_minus)
  next
    case 4
    then have "0 \<le> fl (- x)" by (intro fl_nonneg) simp
    then have "fl x \<le> 0" by (simp add: fl_minus)
    with fl_nonneg [OF 4(2)] show ?thesis by linarith
  qed
qed

lemma fl_eq_0_iff: "fl x = 0 \<longleftrightarrow> x = 0"
proof
  assume z: "fl x = 0"
  show "x = 0"
  proof (rule ccontr)
    assume nz: "x \<noteq> 0"
    then consider "0 < x" | "0 < - x" by linarith
    then show False
    proof cases
      case 1
      from fl_pos [OF 1] z show False by simp
    next
      case 2
      from fl_pos [OF 2] z show False by (simp add: fl_minus)
    qed
  qed
qed (simp add: fl_0)

lemma py_round_mono: "x \<le> y \<Longrightarrow> py_round x n \<le> py_round y n"
proof -
  assume "x \<le> y"
  then have "x * 10 ^ n \<le> y * 10 ^ n" by simp
  then have "rhe (x * 10 ^ n) \<le> rhe (y * 10 ^ n)" by (rule rhe_mono)
  then have "(of_int (rhe (x * 10 ^ n)) :: rat) \<le> of_int (rhe (y * 10 ^ n))"
    by (simp only: of_int_le_iff)
  then have "(of_int (rhe (x * 10 ^ n)) :: rat) / 10 ^ n \<le> of_int (rhe (y * 10 ^ n)) / 10 ^ n"
    by (simp add: divide_right_mono)
  then show ?thesis unfolding py_round_def by (rule fl_mono)
qed

lemma fl_1: "fl 1 = 1" by code_simp
lemma fl_100: "fl 100 = 100" by code_simp
lemma py_round_100: "py_round 100 2 = 100" by code_simp
lemma py_round_0: "py_round 0 2 = 0" by code_simp
lemma py_round_1: "py_round 1 2 = 1" by code_simp

section \<open>Properties of the string operations\<close>

lemma char_lower_not_upper: "\<not> py_isupper (char_lower c)"
  by (auto simp: char_lower_def py_isupper_def)

lemma lower_no_upper: "c \<in> set (lower s) \<Longrightarrow> \<not> py_isupper c"
  by (auto simp: lower_def char_lower_not_upper)

lemma startswith_append: "startswith (p @ s) p"
  by (induction p) auto

lemma py_in_prefix: "py_in p (p @ s)"
  by (cases "p @ s") (auto simp: startswith_append simp del: startswith.simps dest: sym)

lemma py_in_append_left: "py_in p s \<Longrightarrow> py_in p (a @ s)"
  by (induction a) auto

lemma py_in_middle: "py_in p (a @ p @ b)"
  by (intro py_in_append_left py_in_prefix)

lemma startswith_lower: "startswith s p \<Longrightarrow> startswith (lower s) (lower p)"
  by (induction s p rule: startswith.induct) (auto simp: lower_def)

lemma py_in_lower: "py_in p s \<Longrightarrow> py_in (lower p) (lower s)"
proof (induction s)
  case Nil
  then show ?case by (simp add: lower_def)
next
  case (Cons c cs)
  from Cons.prems have "startswith (c # cs) p \<or> py_in p cs" by simp
  then show ?case
  proof
    assume "startswith (c # cs) p"
    then have "startswith (lower (c # cs)) (lower p)" by (rule startswith_lower)
    then show ?thesis by (simp add: lower_def)
  next
    assume "py_in p cs"
    then have "py_in (lower p) (lower cs)" by (rule Cons.IH)
    then show ?thesis by (simp add: lower_def)
  qed
qed

section \<open>The parser on a source text that does not parse\<close>

text \<open>
  Claim C2, as the code has it. When \<^verbatim>\<open>ast.parse\<close> raises \<^verbatim>\<open>SyntaxError\<close> on the source text,
  \<^verbatim>\<open>get_structure\<close> returns (it raises nothing, and the parser object is unchanged) a
  structure that is not valid, with no functions and no classes, and with the non-empty
  message \<^verbatim>\<open>Syntax error at line <lineno>: <msg>\<close>; that message contains the failing line
  number whenever the parser reports one, that is when \<^verbatim>\<open>lineno\<close> is not \<^verbatim>\<open>None\<close>. When
  \<^verbatim>\<open>ast.parse\<close> raises another exception, the structure is the same with the text of the
  exception as its message.
\<close>

theorem syntax_error_structure:
  "(ast_parse code = SyntaxError_raised lineno msg \<longrightarrow>
      get_structure ast_parse code self =
        (\<lparr>functions = [], classes = [], module_docstring = None,
          total_lines = length (split_on (CHR 0x0A) code), is_valid = False,
          error_message =
            Some (''Syntax error at line '' @ format_lineno lineno @ '': '' @ msg)\<rparr>, self)
      \<and> ''Syntax error at line '' @ format_lineno lineno @ '': '' @ msg \<noteq> []
      \<and> (\<forall>n. lineno = Some n \<longrightarrow>
            py_in (str_int n) (''Syntax error at line '' @ format_lineno lineno @ '': '' @ msg)))
   \<and> (ast_parse code = Exception_raised s \<longrightarrow>
      get_structure ast_parse code self =
        (\<lparr>functions = [], classes = [], module_docstring = None,
          total_lines = length (split_on (CHR 0x0A) code), is_valid = False,
          error_message = Some s\<rparr>, self))"
proof -
  have a: "\<forall>n. lineno = Some n \<longrightarrow>
            py_in (str_int n) (''Syntax error at line '' @ format_lineno lineno @ '': '' @ msg)"
  proof (intro allI impI)
    fix n
    assume "lineno = Some n"
    then have "format_lineno lineno = str_int n" by (simp add: format_lineno_def)
    then show "py_in (str_int n) (''Syntax error at line '' @ format_lineno lineno @ '': '' @ msg)"
      by (simp only: py_in_middle)
  qed
  have b: "ast_parse code = SyntaxError_raised lineno msg \<longrightarrow>
      get_structure ast_parse code self =
        (\<lparr>functions = [], classes = [], module_docstring = None,
          total_lines = length (split_on (CHR 0x0A) code), is_valid = False,
          error_message =
            Some (''Syntax error at line '' @ format_lineno lineno @ '': '' @ msg)\<rparr>, self)"
    by (simp add: get_structure_def validate_syntax_def)
  have c: "ast_parse code = Exception_raised s \<longrightarrow>
      get_structure ast_parse code self =
        (\<lparr>functions = [], classes = [], module_docstring = None,
          total_lines = length (split_on (CHR 0x0A) code), is_valid = False,
          error_message = Some s\<rparr>, self)"
    by (simp add: get_structure_def validate_syntax_def)
  have d: "''Syntax error at line '' @ format_lineno lineno @ '': '' @ msg \<noteq> []" by simp
  from a b c d show ?thesis by blast
qed

text \<open>The theorem on \<^verbatim>\<open>if\<close> as the whole source, for a syntax error reported at line 3 and for
  an exception of another class.\<close>

theorem syntax_error_structure_witness:
  "get_structure (\<lambda>c. SyntaxError_raised (Some 3) ''invalid syntax'') ''if'' new_parser =
     (\<lparr>functions = [], classes = [], module_docstring = None,
       total_lines = 1, is_valid = False,
       error_message = Some ''Syntax error at line 3: invalid syntax''\<rparr>, new_parser)
   \<and> py_in ''3'' ''Syntax error at line 3: invalid syntax''
   \<and> get_structure (\<lambda>c. Exception_raised ''maximum recursion depth exceeded'') ''if'' new_parser =
     (\<lparr>functions = [], classes = [], module_docstring = None,
       total_lines = 1, is_valid = False,
       error_message = Some ''maximum recursion depth exceeded''\<rparr>, new_parser)"
proof -
  have a: "str_int 3 = ''3''" by code_simp
  have b: "length (split_on (CHR 0x0A) ''if'') = 1" by code_simp
  show ?thesis
    using syntax_error_structure [where ast_parse = "\<lambda>c. SyntaxError_raised (Some 3) ''invalid syntax''"
        and code = "''if''" and lineno = "Some 3" and msg = "''invalid syntax''"
        and self = new_parser]
      syntax_error_structure [where ast_parse = "\<lambda>c. Exception_raised ''maximum recursion depth exceeded''"
        and code = "''if''" and s = "''maximum recursion depth exceeded''"
        and self = new_parser]
    by (simp add: a b format_lineno_def del: split_on.simps py_in.simps)
qed

text \<open>
  Claim C2 as it is stated fails on a source text with a NUL character: the parser raises
  \<^verbatim>\<open>SyntaxError\<close> without a line number, and the message, which reads \<^verbatim>\<open>line None\<close>, holds
  no digit at all.
\<close>

theorem nul_byte_counterexample:
  "get_structure nul_parse [CHR 0x00] new_parser =
     (\<lparr>functions = [], classes = [], module_docstring = None,
       total_lines = 1, is_valid = False,
       error_message =
         Some ''Syntax error at line None: source code string cannot contain null bytes''\<rparr>,
      new_parser)
   \<and> \<not> list_ex py_isdigit
         ''Syntax error at line None: source code string cannot contain null bytes''"
proof -
  have "\<not> list_ex py_isdigit
         ''Syntax error at line None: source code string cannot contain null bytes''"
    by code_simp
  then show ?thesis
    by (simp add: get_structure_def validate_syntax_def nul_parse_def format_lineno_def)
qed

section \<open>Template-based generation and formatting\<close>

subsection \<open>Name decomposition\<close>

text \<open>
  Claim C5, on the code. A name without underscore goes through the regular expression and
  every token is put in lower case: \<^verbatim>\<open>HTTPServer\<close> gives \<^verbatim>\<open>http\<close>, \<^verbatim>\<open>server\<close>, \<^verbatim>\<open>camelCase\<close> gives
  \<^verbatim>\<open>camel\<close>, \<^verbatim>\<open>case\<close>, and no token of such a name holds a capital letter. A name with an
  underscore is only split at its underscores and keeps its capitals: \<^verbatim>\<open>Get_User\<close> gives
  \<^verbatim>\<open>Get\<close>, \<^verbatim>\<open>User\<close>, where \<^verbatim>\<open>GetUser\<close> gives \<^verbatim>\<open>get\<close>, \<^verbatim>\<open>user\<close>; empty pieces are kept, so
  \<^verbatim>\<open>__init__\<close> gives two empty tokens, \<^verbatim>\<open>init\<close> and two empty tokens.
\<close>

theorem split_function_name_cases:
  "split_function_name ''Get_User'' = [''Get'', ''User''] \<and>
   split_function_name ''GetUser'' = [''get'', ''user''] \<and>
   split_function_name ''__init__'' = [[], [], ''init'', [], []] \<and>
   split_function_name ''HTTPServer'' = [''http'', ''server''] \<and>
   split_function_name ''camelCase'' = [''camel'', ''case''] \<and>
   (CHR ''_'' \<notin> set nm \<longrightarrow>
      (\<forall>t \<in> set (split_function_name nm). \<forall>c \<in> set t. \<not> py_isupper c)) \<and>
   (CHR ''_'' \<in> set nm \<longrightarrow> split_function_name nm = split_on (CHR ''_'') nm)"
proof -
  have a: "split_function_name ''Get_User'' = [''Get'', ''User'']" by code_simp
  have b: "split_function_name ''GetUser'' = [''get'', ''user'']" by code_simp
  have i: "split_function_name ''__init__'' = [[], [], ''init'', [], []]" by code_simp
  have c: "split_function_name ''HTTPServer'' = [''http'', ''server'']" by code_simp
  have d: "split_function_name ''camelCase'' = [''camel'', ''case'']" by code_simp
  have e: "CHR ''_'' \<notin> set nm \<longrightarrow>
      (\<forall>t \<in> set (split_function_name nm). \<forall>c \<in> set t. \<not> py_isupper c)"
    by (auto simp: split_function_name_def dest: lower_no_upper)
  have f: "CHR ''_'' \<in> set nm \<longrightarrow> split_function_name nm = split_on (CHR ''_'') nm"
    by (simp add: split_function_name_def)
  from a b i c d e f show ?thesis by blast
qed

text \<open>The two general parts of the theorem on \<^verbatim>\<open>parseHTML5Doc\<close> and on \<^verbatim>\<open>Get_User\<close>.\<close>

theorem split_function_name_cases_witness:
  "CHR ''_'' \<notin> set ''parseHTML5Doc'' \<and>
   list_all (list_all (\<lambda>c. \<not> py_isupper c)) (split_function_name ''parseHTML5Doc'') \<and>
   CHR ''_'' \<in> set ''Get_User'' \<and>
   split_function_name ''Get_User'' = split_on (CHR ''_'') ''Get_User''"
proof -
  have a: "CHR ''_'' \<notin> set ''parseHTML5Doc''" by simp
  have b: "CHR ''_'' \<in> set ''Get_User''" by simp
  from split_function_name_cases [of "''parseHTML5Doc''"] a
  have "\<forall>t \<in> set (split_function_name ''parseHTML5Doc''). \<forall>c \<in> set t. \<not> py_isupper c"
    by blast
  then have c: "list_all (list_all (\<lambda>c. \<not> py_isupper c)) (split_function_name ''parseHTML5Doc'')"
    by (simp add: list_all_iff)
  from split_function_name_cases [of "''Get_User''"] b
  have d: "split_function_name ''Get_User'' = split_on (CHR ''_'') ''Get_User''" by blast
  from a b c d show ?thesis by blast
qed

subsection \<open>The end-to-end scenario\<close>

lemma price_description:
  "generate_description ''calculate_total_price''
     (split_function_name ''calculate_total_price'') [''items'', ''tax_rate''] =
   ''Calculates total price.\<newline>\<newline>This function performs calculate operations on total price. It is designed to handle various input scenarios and provide reliable results.''"
  by code_simp

lemma price_params:
  "describe_params ''calculate_total_price'' [''items'', ''tax_rate''] Map.empty =
     [''items'' \<mapsto> ''Collection of items to process'', ''tax_rate'' \<mapsto> ''The tax_rate parameter'']"
proof -
  have "generate_param_description ''items'' ''calculate_total_price'' = ''Collection of items to process''"
    by code_simp
  moreover have "generate_param_description ''tax_rate'' ''calculate_total_price'' = ''The tax_rate parameter''"
    by code_simp
  ultimately show ?thesis by simp
qed

lemma price_return:
  "generate_return_description ''calculate_total_price'' None = ''The calculated numerical result''"
  by code_simp

lemma price_examples:
  "generate_examples ''calculate_total_price'' [''items'', ''tax_rate''] =
     [''>>> calculate_total_price([1, 2, 3], tax_rate_value)'', ''expected_result'']"
  by code_simp

lemma price_detailed:
  "detailed_lines ''Calculates total price.\<newline>\<newline>This function performs calculate operations on total price. It is designed to handle various input scenarios and provide reliable results.'' =
   [''This function performs calculate operations on total price. It is designed to handle various input scenarios and provide reliable results.'', []]"
  by code_simp

lemma price_brief:
  "hd (split_on (CHR 0x0A) ''Calculates total price.\<newline>\<newline>This function performs calculate operations on total price. It is designed to handle various input scenarios and provide reliable results.'') =
   ''Calculates total price.''"
  by code_simp

lemma price_non_self: "non_self [''items'', ''tax_rate''] = [''items'', ''tax_rate'']"
  by code_simp

lemma price_order:
  \<open>subseq
     [''"""Calculates total price.'',
      [],
      ''Args:'',
      ''    items: Collection of items to process'',
      ''    tax_rate: The tax_rate parameter'',
      [],
      ''Returns:'',
      ''    The calculated numerical result'',
      [],
      ''Examples:'',
      ''    >>> calculate_total_price([1, 2, 3], tax_rate_value)'',
      ''    expected_result'',
      ''"""'']
     [''"""Calculates total price.'',
      [],
      ''This function performs calculate operations on total price. It is designed to handle various input scenarios and provide reliable results.'',
      [],
      ''Args:'',
      ''    items: Collection of items to process'',
      ''    tax_rate: The tax_rate parameter'',
      [],
      ''Returns:'',
      ''    The calculated numerical result'',
      [],
      ''Examples:'',
      ''    >>> calculate_total_price([1, 2, 3], tax_rate_value)'',
      ''    expected_result'',
      [],
      ''"""'']\<close>
  by code_simp

text \<open>
  Claim C3. For the record named \<^verbatim>\<open>calculate_total_price\<close> with the parameters \<^verbatim>\<open>items\<close> and
  \<^verbatim>\<open>tax_rate\<close> and no return annotation, the description starts with \<^verbatim>\<open>Calculates\<close>, the
  description of \<^verbatim>\<open>tax_rate\<close> is the generic one, the return description is the one of the
  prefix \<^verbatim>\<open>calculate_\<close>, and the Google-style text has, in this order, the brief line, a blank
  line, the \<^verbatim>\<open>Args:\<close> block with both parameters, a blank line, the \<^verbatim>\<open>Returns:\<close> block, a blank
  line, the \<^verbatim>\<open>Examples:\<close> block and the closing marker. Line by line the text is given in
  full: the second paragraph of the description and a blank line stand before \<^verbatim>\<open>Args:\<close>, and a
  blank line stands before the closing marker.
\<close>

theorem price_scenario:
  \<open>description (generate_with_mock (price_function doc l1 l2 src)) =
     ''Calculates total price.\<newline>\<newline>This function performs calculate operations on total price. It is designed to handle various input scenarios and provide reliable results.'' \<and>
   startswith (description (generate_with_mock (price_function doc l1 l2 src))) ''Calculates'' \<and>
   param_descriptions (generate_with_mock (price_function doc l1 l2 src)) ''tax_rate'' =
     Some ''The tax_rate parameter'' \<and>
   return_description (generate_with_mock (price_function doc l1 l2 src)) =
     ''The calculated numerical result'' \<and>
   google_lines (price_function doc l1 l2 src) (generate_with_mock (price_function doc l1 l2 src)) =
     [''"""Calculates total price.'',
      [],
      ''This function performs calculate operations on total price. It is designed to handle various input scenarios and provide reliable results.'',
      [],
      ''Args:'',
      ''    items: Collection of items to process'',
      ''    tax_rate: The tax_rate parameter'',
      [],
      ''Returns:'',
      ''    The calculated numerical result'',
      [],
      ''Examples:'',
      ''    >>> calculate_total_price([1, 2, 3], tax_rate_value)'',
      ''    expected_result'',
      [],
      ''"""''] \<and>
   subseq
     [''"""Calculates total price.'',
      [],
      ''Args:'',
      ''    items: Collection of items to process'',
      ''    tax_rate: The tax_rate parameter'',
      [],
      ''Returns:'',
      ''    The calculated numerical result'',
      [],
      ''Examples:'',
      ''    >>> calculate_total_price([1, 2, 3], tax_rate_value)'',
      ''    expected_result'',
      ''"""'']
     (google_lines (price_function doc l1 l2 src)
        (generate_with_mock (price_function doc l1 l2 src))) \<and>
   generate_function_docs ''google'' (price_function doc l1 l2 src)
       (generate_with_mock (price_function doc l1 l2 src)) =
     py_join [CHR 0x0A]
       (google_lines (price_function doc l1 l2 src)
          (generate_with_mock (price_function doc l1 l2 src)))\<close>
proof -
  let ?f = "price_function doc l1 l2 src"
  have d: \<open>description (generate_with_mock ?f) =
     ''Calculates total price.\<newline>\<newline>This function performs calculate operations on total price. It is designed to handle various input scenarios and provide reliable results.''\<close>
    by (simp add: price_function_def generate_with_mock_def price_description)
  have s: "startswith ''Calculates total price.\<newline>\<newline>This function performs calculate operations on total price. It is designed to handle various input scenarios and provide reliable results.'' ''Calculates''"
    by code_simp
  have p: "param_descriptions (generate_with_mock ?f) ''tax_rate'' = Some ''The tax_rate parameter''"
    by (simp add: price_function_def generate_with_mock_def price_params
        del: describe_params.simps)
  have r: "return_description (generate_with_mock ?f) = ''The calculated numerical result''"
    by (simp add: price_function_def generate_with_mock_def price_return)
  have g: \<open>google_lines ?f (generate_with_mock ?f) =
     [''"""Calculates total price.'',
      [],
      ''This function performs calculate operations on total price. It is designed to handle various input scenarios and provide reliable results.'',
      [],
      ''Args:'',
      ''    items: Collection of items to process'',
      ''    tax_rate: The tax_rate parameter'',
      [],
      ''Returns:'',
      ''    The calculated numerical result'',
      [],
      ''Examples:'',
      ''    >>> calculate_total_price([1, 2, 3], tax_rate_value)'',
      ''    expected_result'',
      [],
      ''"""'']\<close>
    by (simp add: price_function_def generate_with_mock_def google_lines_def
        param_desc_of_def truthy_def price_description price_params price_return
        price_examples price_detailed price_brief price_non_self del: describe_params.simps)
  have j: "generate_function_docs ''google'' ?f (generate_with_mock ?f) =
     py_join [CHR 0x0A] (google_lines ?f (generate_with_mock ?f))"
    by (simp add: generate_function_docs_def format_google_style_def)
  show ?thesis
    unfolding g d using s p r j price_order unfolding g d by blast
qed

subsection \<open>The receiver parameter\<close>

lemma describe_params_lookup:
  "describe_params fn ps d q =
     (if q \<in> set ps \<and> q \<noteq> ''self'' then Some (generate_param_description q fn) else d q)"
  by (induction ps arbitrary: d) auto

lemma generic_cls: "generate_param_description ''cls'' fn = ''The cls parameter''"
proof -
  have "generate_param_description ''cls'' [] = ''The cls parameter''" by code_simp
  then show ?thesis by (simp add: generate_param_description_def)
qed

lemma generic_this: "generate_param_description ''this'' fn = ''The this parameter''"
proof -
  have "generate_param_description ''this'' [] = ''The this parameter''" by code_simp
  then show ?thesis by (simp add: generate_param_description_def)
qed

lemma example_cls: "example_value ''cls'' = ''cls_value''"
  by code_simp

lemma example_this: "example_value ''this'' = ''this_value''"
  by code_simp

lemma non_self_Cons: "p \<noteq> ''self'' \<Longrightarrow> non_self (p # ps) = p # non_self ps"
  by (simp add: non_self_def)

text \<open>
  Claim C10. The only name left out is \<^verbatim>\<open>self\<close>. A first parameter \<open>p\<close> named \<^verbatim>\<open>cls\<close> or
  \<^verbatim>\<open>this\<close> gets the generic description \<^verbatim>\<open>The p parameter\<close> in the dictionary, the
  placeholder \<^verbatim>\<open>p_value\<close> as the first argument of the example call, the line
  \<^verbatim>\<open>    p: The p parameter\<close> under \<^verbatim>\<open>Args:\<close> in the Google-style text, and the lines
  \<^verbatim>\<open>p : type\<close> and \<^verbatim>\<open>    The p parameter\<close> under \<^verbatim>\<open>Parameters\<close> in the NumPy-style text;
  \<^verbatim>\<open>self\<close> is never a key of the dictionary.
\<close>

theorem receiver_is_self_only:
  assumes "p = ''cls'' \<or> p = ''this''" and "params f = p # ps"
  shows "param_descriptions (generate_with_mock f) p = Some (''The '' @ p @ '' parameter'') \<and>
         examples (generate_with_mock f) =
           [''>>> '' @ name f @ ''('' @
              py_join '', '' ((p @ ''_value'') # map example_value (non_self ps)) @ '')'',
            ''expected_result''] \<and>
         ''Args:'' \<in> set (google_lines f (generate_with_mock f)) \<and>
         (''    '' @ p @ '': The '' @ p @ '' parameter'')
           \<in> set (google_lines f (generate_with_mock f)) \<and>
         ''Parameters'' \<in> set (numpy_lines f (generate_with_mock f)) \<and>
         (p @ '' : type'') \<in> set (numpy_lines f (generate_with_mock f)) \<and>
         (''    The '' @ p @ '' parameter'') \<in> set (numpy_lines f (generate_with_mock f)) \<and>
         param_descriptions (generate_with_mock f) ''self'' = None"
proof -
  have ns: "p \<noteq> ''self''" using assms(1) by auto
  have gen: "generate_param_description p (name f) = ''The '' @ p @ '' parameter''"
    using assms(1) by (auto simp: generic_cls generic_this)
  have ex: "example_value p = p @ ''_value''"
    using assms(1) by (auto simp: example_cls example_this)
  have pd: "param_descriptions (generate_with_mock f) p = Some (''The '' @ p @ '' parameter'')"
    using ns gen by (simp add: generate_with_mock_def describe_params_lookup assms(2))
  have self: "param_descriptions (generate_with_mock f) ''self'' = None"
    by (simp add: generate_with_mock_def describe_params_lookup)
  have exs: "examples (generate_with_mock f) =
           [''>>> '' @ name f @ ''('' @
              py_join '', '' ((p @ ''_value'') # map example_value (non_self ps)) @ '')'',
            ''expected_result'']"
    using ns ex
    by (simp add: generate_with_mock_def generate_examples_def assms(2) non_self_Cons Let_def)
  have pdo: "param_desc_of (generate_with_mock f) p = ''The '' @ p @ '' parameter''"
    using pd by (simp add: param_desc_of_def)
  have g: "(''    '' @ p @ '': The '' @ p @ '' parameter'')
           \<in> set (google_lines f (generate_with_mock f))"
    using ns pdo by (simp add: google_lines_def assms(2) non_self_Cons Let_def)
  have g0: "''Args:'' \<in> set (google_lines f (generate_with_mock f))"
    using ns by (simp add: google_lines_def assms(2) non_self_Cons Let_def)
  have n0: "''Parameters'' \<in> set (numpy_lines f (generate_with_mock f))"
    using ns by (simp add: numpy_lines_def assms(2) non_self_Cons Let_def)
  have n1: "(p @ '' : type'') \<in> set (numpy_lines f (generate_with_mock f))"
    using ns by (simp add: numpy_lines_def assms(2) non_self_Cons Let_def)
  have n2: "(''    The '' @ p @ '' parameter'') \<in> set (numpy_lines f (generate_with_mock f))"
    using ns pdo by (simp add: numpy_lines_def assms(2) non_self_Cons Let_def)
  from pd exs g0 g n0 n1 n2 self show ?thesis by blast
qed

text \<open>The theorem on the class method \<^verbatim>\<open>from_config(cls, path)\<close>.\<close>

theorem receiver_is_self_only_witness:
  "param_descriptions (generate_with_mock cls_method) ''cls'' = Some ''The cls parameter'' \<and>
   examples (generate_with_mock cls_method) =
     [''>>> from_config(cls_value, path_value)'', ''expected_result''] \<and>
   ''Args:'' \<in> set (google_lines cls_method (generate_with_mock cls_method)) \<and>
   ''    cls: The cls parameter'' \<in> set (google_lines cls_method (generate_with_mock cls_method)) \<and>
   ''Parameters'' \<in> set (numpy_lines cls_method (generate_with_mock cls_method)) \<and>
   ''cls : type'' \<in> set (numpy_lines cls_method (generate_with_mock cls_method)) \<and>
   ''    The cls parameter'' \<in> set (numpy_lines cls_method (generate_with_mock cls_method)) \<and>
   param_descriptions (generate_with_mock cls_method) ''self'' = None"
proof -
  have a: "params cls_method = ''cls'' # [''path'']" by (simp add: cls_method_def)
  have b: "name cls_method = ''from_config''" by (simp add: cls_method_def)
  have c: "py_join '', '' ((''cls'' @ ''_value'') # map example_value (non_self [''path''])) =
             ''cls_value, path_value''" by code_simp
  from receiver_is_self_only [of "''cls''" cls_method "[''path'']", OF _ a]
  show ?thesis unfolding b c by simp
qed

section \<open>The evaluation engine\<close>

subsection \<open>Percentages\<close>

lemma int_truediv_nat:
  "0 < n \<Longrightarrow> int_truediv (int m) (int n) = Inr (fl (of_int (int m) / of_int (int n)))"
  by (simp add: int_truediv_def)

lemma fl_unit_interval: "0 \<le> x \<Longrightarrow> x \<le> 1 \<Longrightarrow> 0 \<le> fl x \<and> fl x \<le> 1"
  using fl_mono [of x 1] fl_nonneg [of x] by (simp add: fl_1)

lemma percent_bounds:
  assumes "0 \<le> q" and "q \<le> 1"
  shows "0 \<le> py_round (float_mul q 100) 2 \<and> py_round (float_mul q 100) 2 \<le> 100"
proof -
  have "0 \<le> q * 100" and "q * 100 \<le> 100" using assms by simp_all
  then have "0 \<le> float_mul q 100" and "float_mul q 100 \<le> 100"
    using fl_mono [of "q * 100" 100] fl_nonneg [of "q * 100"]
    by (simp_all add: float_mul_def fl_100)
  then show ?thesis
    using py_round_mono [of 0 "float_mul q 100" 2] py_round_mono [of "float_mul q 100" 100 2]
    by (simp add: py_round_0 py_round_100)
qed

lemma ratio_bounds:
  assumes "a \<le> b" and "0 < b"
  shows "0 \<le> fl (of_int (int a) / of_int (int b)) \<and> fl (of_int (int a) / of_int (int b)) \<le> 1"
proof (rule fl_unit_interval)
  show "(0::rat) \<le> of_int (int a) / of_int (int b)" by simp
  show "(of_int (int a) :: rat) / of_int (int b) \<le> 1" using assms by simp
qed


lemma fifth_values:
  "py_round (float_mul (fl (1 / 5)) 100) 2 = 20"
  "py_round (float_mul (fl (2 / 5)) 100) 2 = 40"
  "py_round (float_mul (fl (3 / 5)) 100) 2 = 60"
  "py_round (float_mul (fl (4 / 5)) 100) 2 = 80"
  "py_round (float_mul (fl 1) 100) 2 = 100"
  by code_simp+

subsection \<open>Length ratio\<close>

lemma length_ratio_form:
  "\<exists>k. 0 \<le> k \<and> calculate_length_ratio a h = Inr (fl (of_int k / 100))"
proof (cases "py_split h = []")
  case True
  then have "calculate_length_ratio a h = Inr (fl (of_int 100 / 100))"
    by (simp add: calculate_length_ratio_def fl_1)
  then show ?thesis by (intro exI [of _ 100]) simp
next
  case False
  let ?q = "fl (of_int (int (length (py_split a))) / of_int (int (length (py_split h))))"
  have "(0::rat) \<le> of_int (int (length (py_split a))) / of_int (int (length (py_split h)))"
    by simp
  then have "0 \<le> ?q" by (rule fl_nonneg)
  then have "of_int 0 \<le> ?q * 10 ^ 2" by simp
  then have "rhe (of_int 0) \<le> rhe (?q * 10 ^ 2)" by (rule rhe_mono)
  then have k: "0 \<le> rhe (?q * 10 ^ 2)" by (simp only: rhe_of_int)
  have "calculate_length_ratio a h = Inr (fl (of_int (rhe (?q * 10 ^ 2)) / 100))"
    using False by (simp add: calculate_length_ratio_def Let_def int_truediv_def py_round_def)
  then show ?thesis using k by blast
qed

text \<open>
  Claim C8. \<^verbatim>\<open>calculate_length_ratio\<close> returns 1.0 when the reference has no word; otherwise it
  returns the quotient of the two word counts (a float division) rounded to two decimals by
  \<^verbatim>\<open>round\<close>, which is the float nearest to some \<open>k / 100\<close>; on \<^verbatim>\<open>a b c d\<close> against \<^verbatim>\<open>a b\<close>
  it returns 2.0.
\<close>

theorem length_ratio_spec:
  "(py_split human_docs = [] \<longrightarrow> calculate_length_ratio ai_docs human_docs = Inr 1) \<and>
   (py_split human_docs \<noteq> [] \<longrightarrow>
      calculate_length_ratio ai_docs human_docs =
        Inr (py_round (fl (of_nat (length (py_split ai_docs))
                           / of_nat (length (py_split human_docs)))) 2)) \<and>
   (\<exists>k. 0 \<le> k \<and> calculate_length_ratio ai_docs human_docs = Inr (fl (of_int k / 100))) \<and>
   calculate_length_ratio ''a b c d'' ''a b'' = Inr 2"
proof -
  have a: "calculate_length_ratio ''a b c d'' ''a b'' = Inr 2" by code_simp
  have b: "py_split human_docs = [] \<longrightarrow> calculate_length_ratio ai_docs human_docs = Inr 1"
    by (simp add: calculate_length_ratio_def)
  have c: "py_split human_docs \<noteq> [] \<longrightarrow>
      calculate_length_ratio ai_docs human_docs =
        Inr (py_round (fl (of_nat (length (py_split ai_docs))
                           / of_nat (length (py_split human_docs)))) 2)"
    by (simp add: calculate_length_ratio_def Let_def int_truediv_def)
  from a b c length_ratio_form [of ai_docs human_docs] show ?thesis by blast
qed

text \<open>The theorem on an empty reference and on the reference \<^verbatim>\<open>a b\<close>.\<close>

theorem length_ratio_spec_witness:
  "py_split '''' = [] \<and> calculate_length_ratio ''a b c d'' '''' = Inr 1 \<and>
   py_split ''a b'' \<noteq> [] \<and>
   calculate_length_ratio ''a b c d'' ''a b'' =
     Inr (py_round (fl (of_nat (length (py_split ''a b c d''))
                        / of_nat (length (py_split ''a b'')))) 2) \<and>
   py_round (fl (of_nat (length (py_split ''a b c d''))
                 / of_nat (length (py_split ''a b'')))) 2 = 2"
proof -
  have a: "py_split '''' = []" by code_simp
  have b: "py_split ''a b'' \<noteq> []" by code_simp
  have c: "py_round (fl (of_nat (length (py_split ''a b c d''))
                 / of_nat (length (py_split ''a b'')))) 2 = 2" by code_simp
  from length_ratio_spec [of "''''" "''a b c d''"] a
  have d: "calculate_length_ratio ''a b c d'' '''' = Inr 1" by blast
  from length_ratio_spec [of "''a b''" "''a b c d''"] b
  have e: "calculate_length_ratio ''a b c d'' ''a b'' =
     Inr (py_round (fl (of_nat (length (py_split ''a b c d''))
                        / of_nat (length (py_split ''a b'')))) 2)" by blast
  from a b c d e show ?thesis by blast
qed

subsection \<open>Consistency\<close>

lemma consistency_checks_shape: "\<exists>a b c d. consistency_checks docs = [a, b, c, d, True]"
  by (simp add: consistency_checks_def Let_def Suc_le_eq)

lemma calculate_consistency_value:
  "calculate_consistency docs = Inr (20 * of_nat (length (filter id (consistency_checks docs))))"
proof -
  obtain a b c d where s: "consistency_checks docs = [a, b, c, d, True]"
    using consistency_checks_shape by blast
  show ?thesis
    unfolding calculate_consistency_def Let_def s
    by (cases a; cases b; cases c; cases d) (simp_all add: int_truediv_def fifth_values)
qed

lemma consistency_bounds:
  "\<exists>s. calculate_consistency docs = Inr s \<and> 0 \<le> s \<and> s \<le> 100"
proof -
  obtain a b c d where s: "consistency_checks docs = [a, b, c, d, True]"
    using consistency_checks_shape by blast
  have "length (filter id (consistency_checks docs)) \<le> 5"
    using length_filter_le [of id "consistency_checks docs"] by (simp add: s)
  then have "(of_nat (length (filter id (consistency_checks docs))) :: rat) \<le> 5"
    by (metis of_nat_le_iff of_nat_numeral)
  then show ?thesis using calculate_consistency_value [of docs] by simp
qed

text \<open>
  Claim C9. The fifth check holds for every document, whether a parameter line is found or
  not, so \<^verbatim>\<open>calculate_consistency\<close> returns a score of at least 20.
\<close>

theorem consistency_at_least_20:
  "(\<exists>s. calculate_consistency docs = Inr s \<and> 20 \<le> s) \<and> consistency_checks docs ! 4"
proof -
  obtain a b c d where s: "consistency_checks docs = [a, b, c, d, True]"
    using consistency_checks_shape by blast
  have "1 \<le> length (filter id (consistency_checks docs))" by (simp add: s)
  then have "(1::rat) \<le> of_nat (length (filter id (consistency_checks docs)))"
    by (metis of_nat_1 of_nat_le_iff)
  then have "(20::rat) \<le> 20 * of_nat (length (filter id (consistency_checks docs)))" by simp
  then show ?thesis using calculate_consistency_value [of docs] by (simp add: s)
qed

lemma search_any_ci_head: "py_in a s \<Longrightarrow> search_any_ci (a # alts) s"
  by (simp add: search_any_ci_def py_in_lower)

text \<open>
  Claim C7. A document that contains \<^verbatim>\<open>Args:\<close>, \<^verbatim>\<open>Returns:\<close> and \<^verbatim>\<open>Example\<close>, whose section
  headers at line starts (there is at least one) all begin with a capital or all without, and
  which has at least one indented \<^verbatim>\<open>name: description\<close> line, gets the consistency score 100.
\<close>

theorem consistency_full:
  assumes "py_in ''Args:'' docs" and "py_in ''Returns:'' docs" and "py_in ''Example'' docs"
    and "header_scan True docs \<noteq> []"
    and "(\<forall>h \<in> set (header_scan True docs). py_isupper (hd h)) \<or>
         (\<forall>h \<in> set (header_scan True docs). \<not> py_isupper (hd h))"
    and "param_scan True 0 docs \<noteq> []"
  shows "calculate_consistency docs = Inr 100"
proof -
  have c1: "search_any_ci [''Args:'', ''Parameters:''] docs"
    using assms(1) by (rule search_any_ci_head)
  have c2: "search_any_ci [''Returns:'', ''Return:''] docs"
    using assms(2) by (rule search_any_ci_head)
  have c3: "search_any [''Example'', ''>>>''] docs"
    using assms(3) by (simp add: search_any_def)
  let ?n = "length (filter (\<lambda>s. py_isupper (hd s)) (header_scan True docs))"
  have c4: "?n = length (header_scan True docs) \<or> ?n = 0"
    using assms(5)
  proof
    assume "\<forall>h \<in> set (header_scan True docs). py_isupper (hd h)"
    then have "filter (\<lambda>s. py_isupper (hd s)) (header_scan True docs) = header_scan True docs"
      by (simp add: filter_id_conv)
    then show ?thesis by simp
  next
    assume "\<forall>h \<in> set (header_scan True docs). \<not> py_isupper (hd h)"
    then have "filter (\<lambda>s. py_isupper (hd s)) (header_scan True docs) = []"
      by (simp add: filter_empty_conv)
    then show ?thesis by simp
  qed
  have "consistency_checks docs = [True, True, True, True, True]"
    using c1 c2 c3 c4 assms(4) by (simp add: consistency_checks_def Let_def Suc_le_eq)
  then show ?thesis using calculate_consistency_value [of docs] by simp
qed

text \<open>The theorem on the short document.\<close>

theorem consistency_full_witness:
  "py_in ''Args:'' sample_doc \<and> py_in ''Returns:'' sample_doc \<and> py_in ''Example'' sample_doc \<and>
   header_scan True sample_doc = [''Args'', ''Returns''] \<and>
   param_scan True 0 sample_doc = [''    x: the value''] \<and>
   calculate_consistency sample_doc = Inr 100"
proof -
  have a: "py_in ''Args:'' sample_doc" by code_simp
  have b: "py_in ''Returns:'' sample_doc" by code_simp
  have c: "py_in ''Example'' sample_doc" by code_simp
  have d: "header_scan True sample_doc = [''Args'', ''Returns'']" by code_simp
  have e: "param_scan True 0 sample_doc = [''    x: the value'']" by code_simp
  have f: "header_scan True sample_doc \<noteq> []" by (simp add: d)
  have g: "(\<forall>h \<in> set (header_scan True sample_doc). py_isupper (hd h)) \<or>
         (\<forall>h \<in> set (header_scan True sample_doc). \<not> py_isupper (hd h))"
    unfolding d by (simp add: py_isupper_def)
  have h: "param_scan True 0 sample_doc \<noteq> []" by (simp add: e)
  from consistency_full [OF a b c f g h] a b c d e show ?thesis by simp
qed

subsection \<open>Identical documents\<close>

lemma finite_keywords: "finite (extract_keywords d)"
  by (simp add: extract_keywords_def Let_def)

lemma overlap_self:
  "calculate_keyword_overlap d d = Inr (if extract_keywords d = {} then 0 else 100)"
proof (cases "extract_keywords d = {}")
  case True
  then show ?thesis by (simp add: calculate_keyword_overlap_def)
next
  case False
  then have "card (extract_keywords d) \<noteq> 0" using finite_keywords [of d] by simp
  then show ?thesis
    using False by (simp add: calculate_keyword_overlap_def int_truediv_def fifth_values)
qed

lemma length_ratio_self: "calculate_length_ratio d d = Inr 1"
  by (simp add: calculate_length_ratio_def Let_def int_truediv_def fl_1 py_round_1)

subsection \<open>Coverage\<close>

lemma documented_count_le:
  "documented_count docs cs \<le> length (functions cs) + length (classes cs)"
  unfolding documented_count_def
  by (intro add_mono length_filter_le)



lemma coverage_empty:
  "length (functions cs) + length (classes cs) = 0 \<Longrightarrow> calculate_coverage docs cs = Inr 100"
  by (simp add: calculate_coverage_def)

lemma coverage_nonempty:
  assumes "0 < length (functions cs) + length (classes cs)"
  shows "calculate_coverage docs cs =
     Inr (py_round (float_mul (fl (of_int (int (documented_count docs cs))
            / of_int (int (length (functions cs) + length (classes cs))))) 100) 2)"
proof -
  have ne: "length (functions cs) + length (classes cs) \<noteq> 0" using assms by simp
  show ?thesis
    unfolding calculate_coverage_def Let_def int_truediv_nat [OF assms]
    by (simp only: ne if_False sum.case)
qed


lemma coverage_bounds:
  "\<exists>c. calculate_coverage docs cs = Inr c \<and> 0 \<le> c \<and> c \<le> 100"
proof (cases "length (functions cs) + length (classes cs) = 0")
  case True
  then show ?thesis by (simp add: coverage_empty)
next
  case False
  then have pos: "0 < length (functions cs) + length (classes cs)" by simp
  have "0 \<le> fl (of_int (int (documented_count docs cs))
                  / of_int (int (length (functions cs) + length (classes cs)))) \<and>
        fl (of_int (int (documented_count docs cs))
                  / of_int (int (length (functions cs) + length (classes cs)))) \<le> 1"
    using documented_count_le pos by (rule ratio_bounds)
  then show ?thesis using percent_bounds coverage_nonempty [OF pos] by blast
qed




subsection \<open>The length term never divides by zero\<close>

text \<open>
  In exact arithmetic \<^verbatim>\<open>length_ratio - 1.0 + 0.1\<close> is zero at the ratio 0.9. In floating point
  it is not: the float 0.9 and the float just below it enclose \<open>1 - 0.1\<close> (the float 0.1),
  the denominator is positive from 0.9 upwards and negative from its predecessor downwards.
\<close>

lemma fl_neg: "x < 0 \<Longrightarrow> fl x < 0"
  using fl_pos [of "- x"] by (simp add: fl_minus)

lemma fl_eval:
  assumes "2 powi k \<le> \<bar>x\<bar>" and "\<bar>x\<bar> < 2 powi (k + 1)"
  shows "fl x = of_int (rhe (x / 2 powi (k - 52))) * 2 powi (k - 52)"
proof -
  have e: "expo x = k" using assms by (rule expo_unique)
  have pos: "(0::rat) < 2 powi k" by (rule zero_less_power_int) simp
  have "x \<noteq> 0"
  proof
    assume "x = 0"
    with assms(1) have "(2::rat) powi k \<le> 0" by simp
    with pos show False by linarith
  qed
  then show ?thesis by (simp add: fl_def Let_def e)
qed

lemma critical_values:
  "fl (fl (9 / 10) - 1 / 2 ^ 53 - 1) + fl (1 / 10) < 0"
  "0 < fl (fl (9 / 10) - 1) + fl (1 / 10)"
  "fl (89 / 100) \<le> fl (9 / 10) - 1 / 2 ^ 53"
  "1 / 2 \<le> fl (9 / 10) - 1 / 2 ^ 53"
  "fl (9 / 10) < 1"
  "fl (9 / 10) = 8106479329266893 / 2 ^ 53"
  by code_simp+

lemma denominator_below:
  assumes "L \<le> fl (9 / 10) - 1 / 2 ^ 53"
  shows "float_add (float_sub L 1) (fl (1 / 10)) < 0"
proof -
  have "L - 1 \<le> fl (9 / 10) - 1 / 2 ^ 53 - 1" using assms by simp
  then have "fl (L - 1) \<le> fl (fl (9 / 10) - 1 / 2 ^ 53 - 1)" by (rule fl_mono)
  then have "fl (L - 1) + fl (1 / 10) < 0" using critical_values(1) by linarith
  then show ?thesis unfolding float_add_def float_sub_def by (rule fl_neg)
qed

lemma denominator_above:
  assumes "fl (9 / 10) \<le> L"
  shows "0 < float_add (float_sub L 1) (fl (1 / 10))"
proof -
  have "fl (9 / 10) - 1 \<le> L - 1" using assms by simp
  then have "fl (fl (9 / 10) - 1) \<le> fl (L - 1)" by (rule fl_mono)
  then have "0 < fl (L - 1) + fl (1 / 10)" using critical_values(2) by linarith
  then show ?thesis unfolding float_add_def float_sub_def by (rule fl_pos)
qed

lemma length_term_total:
  assumes "L \<le> fl (9 / 10) - 1 / 2 ^ 53 \<or> fl (9 / 10) \<le> L"
  shows "\<exists>t. length_term L = Inr t \<and> 0 < t \<and> t \<le> 100"
proof -
  let ?d = "\<bar>float_add (float_sub L 1) (fl (1 / 10))\<bar>"
  have d: "0 < ?d" using assms denominator_below [of L] denominator_above [of L] by auto
  then have "0 < 1 / ?d" by simp
  then have "0 < fl (1 / ?d)" by (rule fl_pos)
  then have "0 < fl (1 / ?d) * 10" by simp
  then have x: "0 < float_mul (fl (1 / ?d)) 10" unfolding float_mul_def by (rule fl_pos)
  have "float_div 1 ?d = Inr (fl (1 / ?d))" using d by (simp add: float_div_def)
  then show ?thesis using x by (simp add: length_term_def Let_def)
qed

lemma rounded_gap:
  assumes "0 \<le> k"
  shows "fl (of_int k / 100) \<le> fl (9 / 10) - 1 / 2 ^ 53 \<or> fl (9 / 10) \<le> fl (of_int k / 100)"
proof (cases "k \<le> 89")
  case True
  then have "(of_int k :: rat) \<le> 89" by (metis of_int_le_iff of_int_numeral)
  then have "(of_int k :: rat) / 100 \<le> 89 / 100" by simp
  then have "fl (of_int k / 100) \<le> fl (89 / 100)" by (rule fl_mono)
  then show ?thesis using critical_values(3) by linarith
next
  case False
  then have "90 \<le> k" by simp
  then have "(90 :: rat) \<le> of_int k" by (metis of_int_le_iff of_int_numeral)
  then have "(9 :: rat) / 10 \<le> of_int k / 100" by simp
  then have "fl (9 / 10) \<le> fl (of_int k / 100)" by (rule fl_mono)
  then show ?thesis by simp
qed

lemma float_gap:
  assumes "fl L = L"
  shows "L \<le> fl (9 / 10) - 1 / 2 ^ 53 \<or> fl (9 / 10) \<le> L"
proof (rule ccontr)
  assume "\<not> ?thesis"
  then have lo: "fl (9 / 10) - 1 / 2 ^ 53 < L" and hi: "L < fl (9 / 10)" by simp_all
  have pos: "0 < L" using lo critical_values(4) by linarith
  have "2 powi (- 1) \<le> \<bar>L\<bar>" using lo critical_values(4) pos by (simp add: power_int_minus)
  moreover have "\<bar>L\<bar> < 2 powi (- 1 + 1)" using hi critical_values(5) pos by simp
  ultimately have "fl L = of_int (rhe (L / 2 powi (- 1 - 52))) * 2 powi (- 1 - 52)"
    by (rule fl_eval)
  then have "L = of_int (rhe (L / 2 powi (- 53))) * 2 powi (- 53)" using assms by simp
  then have "L * 2 ^ 53 = of_int (rhe (L / 2 powi (- 53)))"
    by (simp add: power_int_minus field_simps)
  then obtain m :: int where m: "L * 2 ^ 53 = of_int m" ..
  have a: "8106479329266892 < L * 2 ^ 53" using lo by (simp add: critical_values(6) field_simps)
  have b: "L * 2 ^ 53 < 8106479329266893" using hi by (simp add: critical_values(6) field_simps)
  from a have "(of_int (8106479329266892::int) :: rat) < of_int m" unfolding m by simp
  then have c: "8106479329266892 < m" by (simp only: of_int_less_iff)
  from b have "(of_int m :: rat) < of_int (8106479329266893::int)" unfolding m by simp
  then have d: "m < 8106479329266893" by (simp only: of_int_less_iff)
  from c d show False by linarith
qed

subsection \<open>The weighted sum\<close>

lemma weights:
  "0 \<le> fl (35 / 100)" "0 \<le> fl (30 / 100)" "0 \<le> fl (15 / 100)" "0 \<le> fl (20 / 100)"
  "fl (100 * fl (35 / 100)) = 35" "fl (100 * fl (30 / 100)) = 30"
  "fl (100 * fl (15 / 100)) = 15" "fl (100 * fl (20 / 100)) = 20"
  "fl (35 + 30) = 65" "fl (65 + 15) = 80" "fl (80 + 20) = 100"
  by code_simp+

lemma float_mul_bounds:
  assumes "0 \<le> x" and "x \<le> 100" and "0 \<le> w"
  shows "0 \<le> float_mul x w \<and> float_mul x w \<le> fl (100 * w)"
proof -
  have "0 \<le> x * w" using assms by simp
  moreover have "x * w \<le> 100 * w" using assms by (simp add: mult_right_mono)
  ultimately show ?thesis
    unfolding float_mul_def using fl_nonneg [of "x * w"] fl_mono [of "x * w" "100 * w"] by simp
qed

lemma float_add_bounds:
  assumes "0 \<le> x" and "x \<le> a" and "0 \<le> y" and "y \<le> b"
  shows "0 \<le> float_add x y \<and> float_add x y \<le> fl (a + b)"
proof -
  have "0 \<le> x + y" and "x + y \<le> a + b" using assms by simp_all
  then show ?thesis
    unfolding float_add_def using fl_nonneg [of "x + y"] fl_mono [of "x + y" "a + b"] by simp
qed

lemma weighted_sum_bounds:
  assumes "0 \<le> k" "k \<le> 100" "0 \<le> c" "c \<le> 100" "0 \<le> t" "t \<le> 100" "0 \<le> s" "s \<le> 100"
  shows "0 \<le> weighted_sum k c t s \<and> weighted_sum k c t s \<le> 100"
proof -
  have a: "0 \<le> float_mul k (fl (35 / 100)) \<and> float_mul k (fl (35 / 100)) \<le> 35"
    using float_mul_bounds [OF assms(1,2) weights(1)] by (simp only: weights)
  have b: "0 \<le> float_mul c (fl (30 / 100)) \<and> float_mul c (fl (30 / 100)) \<le> 30"
    using float_mul_bounds [OF assms(3,4) weights(2)] by (simp only: weights)
  have d: "0 \<le> float_mul t (fl (15 / 100)) \<and> float_mul t (fl (15 / 100)) \<le> 15"
    using float_mul_bounds [OF assms(5,6) weights(3)] by (simp only: weights)
  have e: "0 \<le> float_mul s (fl (20 / 100)) \<and> float_mul s (fl (20 / 100)) \<le> 20"
    using float_mul_bounds [OF assms(7,8) weights(4)] by (simp only: weights)
  let ?ab = "float_add (float_mul k (fl (35 / 100))) (float_mul c (fl (30 / 100)))"
  have "0 \<le> ?ab \<and> ?ab \<le> fl (35 + 30)"
    by (rule float_add_bounds) (use a b in simp_all)
  then have ab: "0 \<le> ?ab \<and> ?ab \<le> 65" by (simp only: weights)
  let ?abd = "float_add ?ab (float_mul t (fl (15 / 100)))"
  have "0 \<le> ?abd \<and> ?abd \<le> fl (65 + 15)"
    by (rule float_add_bounds) (use ab d in simp_all)
  then have abd: "0 \<le> ?abd \<and> ?abd \<le> 80" by (simp only: weights)
  have "0 \<le> float_add ?abd (float_mul s (fl (20 / 100))) \<and>
        float_add ?abd (float_mul s (fl (20 / 100))) \<le> fl (80 + 20)"
    by (rule float_add_bounds) (use abd e in simp_all)
  then have "0 \<le> float_add ?abd (float_mul s (fl (20 / 100))) \<and>
        float_add ?abd (float_mul s (fl (20 / 100))) \<le> 100" by (simp only: weights)
  then show ?thesis by (simp only: weighted_sum_def)
qed

lemma keyword_overlap_bounds:
  "\<exists>k. calculate_keyword_overlap a h = Inr k \<and> 0 \<le> k \<and> k \<le> 100"
proof (cases "extract_keywords a = {} \<or> extract_keywords h = {}")
  case True
  then show ?thesis by (auto simp: calculate_keyword_overlap_def)
next
  case False
  let ?i = "card (extract_keywords a \<inter> extract_keywords h)"
  let ?u = "card (extract_keywords a \<union> extract_keywords h)"
  have fin: "finite (extract_keywords a \<union> extract_keywords h)"
    by (simp add: finite_keywords)
  have u: "0 < ?u" using False fin by (simp add: card_gt_0_iff)
  have iu: "?i \<le> ?u" using fin by (intro card_mono) auto
  have "calculate_keyword_overlap a h =
          Inr (py_round (float_mul (fl (of_int (int ?i) / of_int (int ?u))) 100) 2)"
    using False unfolding calculate_keyword_overlap_def Let_def int_truediv_nat [OF u]
    by simp
  moreover have "0 \<le> fl (of_int (int ?i) / of_int (int ?u)) \<and>
                 fl (of_int (int ?i) / of_int (int ?u)) \<le> 1"
    using iu u by (rule ratio_bounds)
  ultimately show ?thesis using percent_bounds by blast
qed

lemma evaluate_total:
  "\<exists>k c l s t.
     calculate_keyword_overlap a h = Inr k \<and> 0 \<le> k \<and> k \<le> 100 \<and>
     calculate_coverage a cs = Inr c \<and> 0 \<le> c \<and> c \<le> 100 \<and>
     calculate_length_ratio a h = Inr l \<and>
     calculate_consistency a = Inr s \<and> 0 \<le> s \<and> s \<le> 100 \<and>
     length_term l = Inr t \<and> 0 < t \<and> t \<le> 100 \<and>
     evaluate a h cs =
       Inr \<lparr>keyword_overlap_score = k, coverage_score = c, length_ratio = l,
            consistency_score = s, overall_score = weighted_sum k c t s,
            detailed_analysis =
              [(''keyword_overlap'', k, interpret_keyword_overlap k),
               (''coverage'', c, interpret_coverage c),
               (''length_ratio'', l, interpret_length_ratio l),
               (''consistency'', s, interpret_consistency s)]\<rparr>"
proof -
  obtain k where k: "calculate_keyword_overlap a h = Inr k" "0 \<le> k" "k \<le> 100"
    using keyword_overlap_bounds by blast
  obtain c where c: "calculate_coverage a cs = Inr c" "0 \<le> c" "c \<le> 100"
    using coverage_bounds by blast
  obtain s where s: "calculate_consistency a = Inr s" "0 \<le> s" "s \<le> 100"
    using consistency_bounds by blast
  obtain n where n: "0 \<le> n" "calculate_length_ratio a h = Inr (fl (of_int n / 100))"
    using length_ratio_form by blast
  obtain t where t: "length_term (fl (of_int n / 100)) = Inr t" "0 < t" "t \<le> 100"
    using length_term_total [OF rounded_gap [OF n(1)]] by blast
  have "evaluate a h cs =
       Inr \<lparr>keyword_overlap_score = k, coverage_score = c, length_ratio = fl (of_int n / 100),
            consistency_score = s, overall_score = weighted_sum k c t s,
            detailed_analysis =
              [(''keyword_overlap'', k, interpret_keyword_overlap k),
               (''coverage'', c, interpret_coverage c),
               (''length_ratio'', fl (of_int n / 100), interpret_length_ratio (fl (of_int n / 100))),
               (''consistency'', s, interpret_consistency s)]\<rparr>"
    by (simp add: evaluate_def k(1) c(1) s(1) n(2) t(1))
  with k c s n t show ?thesis by blast
qed

text \<open>
  Claim C1. For all documents and every structure \<^verbatim>\<open>evaluate\<close> returns a result (no exception
  is raised), whose overall score is the weighted sum of the four terms, the length term
  being at most 100, and lies between 0 and 100. The length term is defined for every float
  \<open>L\<close> (a number that rounding leaves unchanged).
\<close>

theorem evaluate_overall_in_range:
  "(\<exists>r t. evaluate ai_docs human_docs cs = Inr r \<and>
        length_term (length_ratio r) = Inr t \<and> 0 < t \<and> t \<le> 100 \<and>
        overall_score r =
          weighted_sum (keyword_overlap_score r) (coverage_score r) t (consistency_score r) \<and>
        0 \<le> overall_score r \<and> overall_score r \<le> 100) \<and>
   (fl L = L \<longrightarrow> (\<exists>t. length_term L = Inr t \<and> 0 < t \<and> t \<le> 100))"
proof -
  obtain k c l s t where e:
     "0 \<le> k" "k \<le> 100" "0 \<le> c" "c \<le> 100" "0 \<le> s" "s \<le> 100"
     "length_term l = Inr t" "0 < t" "t \<le> 100"
     "evaluate ai_docs human_docs cs =
       Inr \<lparr>keyword_overlap_score = k, coverage_score = c, length_ratio = l,
            consistency_score = s, overall_score = weighted_sum k c t s,
            detailed_analysis =
              [(''keyword_overlap'', k, interpret_keyword_overlap k),
               (''coverage'', c, interpret_coverage c),
               (''length_ratio'', l, interpret_length_ratio l),
               (''consistency'', s, interpret_consistency s)]\<rparr>"
    using evaluate_total [of ai_docs human_docs cs] by blast
  have "0 \<le> t" using e(8) by simp
  then have w: "0 \<le> weighted_sum k c t s \<and> weighted_sum k c t s \<le> 100"
    using e by (intro weighted_sum_bounds)
  have a: "\<exists>r t. evaluate ai_docs human_docs cs = Inr r \<and>
        length_term (length_ratio r) = Inr t \<and> 0 < t \<and> t \<le> 100 \<and>
        overall_score r =
          weighted_sum (keyword_overlap_score r) (coverage_score r) t (consistency_score r) \<and>
        0 \<le> overall_score r \<and> overall_score r \<le> 100"
    using e(7-10) w by (intro exI [of _ "\<lparr>keyword_overlap_score = k, coverage_score = c, length_ratio = l,
            consistency_score = s, overall_score = weighted_sum k c t s,
            detailed_analysis =
              [(''keyword_overlap'', k, interpret_keyword_overlap k),
               (''coverage'', c, interpret_coverage c),
               (''length_ratio'', l, interpret_length_ratio l),
               (''consistency'', s, interpret_consistency s)]\<rparr>"] exI [of _ t]) simp
  have b: "fl L = L \<longrightarrow> (\<exists>t. length_term L = Inr t \<and> 0 < t \<and> t \<le> 100)"
    using length_term_total [OF float_gap [of L]] by blast
  from a b show ?thesis by blast
qed

text \<open>The theorem at the ratio 0.9: a document of nine words against one of ten.\<close>

theorem evaluate_overall_in_range_witness:
  "fl (fl (9 / 10)) = fl (9 / 10) \<and> length_term (fl (9 / 10)) = Inr 100 \<and>
   calculate_length_ratio nine_words ten_words = Inr (fl (9 / 10)) \<and>
   (\<exists>r t. evaluate nine_words ten_words empty_structure = Inr r \<and>
        length_term (length_ratio r) = Inr t \<and> 0 < t \<and> t \<le> 100 \<and>
        overall_score r =
          weighted_sum (keyword_overlap_score r) (coverage_score r) t (consistency_score r) \<and>
        0 \<le> overall_score r \<and> overall_score r \<le> 100)"
proof -
  have a: "fl (fl (9 / 10)) = fl (9 / 10)" by code_simp
  have b: "length_term (fl (9 / 10)) = Inr 100" by code_simp
  have c: "calculate_length_ratio nine_words ten_words = Inr (fl (9 / 10))" by code_simp
  from evaluate_overall_in_range [of nine_words ten_words empty_structure "fl (9 / 10)"] a b c
  show ?thesis by blast
qed

text \<open>
  Claim C4, as the code has it. Evaluating a document against itself gives the length ratio
  1.0, and the keyword overlap 100.0 when the document has a keyword, 0.0 when it has none.
\<close>

theorem identical_documents:
  "\<exists>r. evaluate d d cs = Inr r \<and> length_ratio r = 1 \<and>
        keyword_overlap_score r = (if extract_keywords d = {} then 0 else 100)"
proof -
  obtain k c l s t where e:
     "calculate_keyword_overlap d d = Inr k" "calculate_length_ratio d d = Inr l"
     "evaluate d d cs =
       Inr \<lparr>keyword_overlap_score = k, coverage_score = c, length_ratio = l,
            consistency_score = s, overall_score = weighted_sum k c t s,
            detailed_analysis =
              [(''keyword_overlap'', k, interpret_keyword_overlap k),
               (''coverage'', c, interpret_coverage c),
               (''length_ratio'', l, interpret_length_ratio l),
               (''consistency'', s, interpret_consistency s)]\<rparr>"
    using evaluate_total [of d d cs] by blast
  have k: "k = (if extract_keywords d = {} then 0 else 100)"
    using e(1) by (simp add: overlap_self)
  have l: "l = 1" using e(2) by (simp add: length_ratio_self)
  show ?thesis unfolding e(3) using k l by simp
qed

text \<open>
  Claim C4 as it is stated fails on a document made of stop words and short words only:
  its keyword set is empty and the keyword overlap with itself is 0.
\<close>

theorem stop_words_only_counterexample:
  "extract_keywords stop_word_doc = {} \<and>
   calculate_keyword_overlap stop_word_doc stop_word_doc = Inr 0 \<and>
   map_sum id keyword_overlap_score (evaluate stop_word_doc stop_word_doc empty_structure) = Inr 0"
  by code_simp

end
